theory Spec2Isabelle
  imports Complex_Main "HOL-Library.Signed_Division"
begin

section \<open>Exact planar geometry primitives of geo.hpp\<close>

text \<open>
  The header is a family of templates over a numeric type \<open>T\<close>.  The development below
  instantiates \<open>T\<close> with the built-in type \<open>int\<close>: 32 bits, two's complement.  A value of
  \<open>T\<close> is an integer between \<open>INT_MIN\<close> and \<open>INT_MAX\<close>; sums, differences and products are
  taken modulo \<open>2^32\<close> (\<open>wrap\<close>); the operators \<open>/\<close> and \<open>%\<close> truncate towards zero (\<open>sdiv\<close>
  and \<open>smod\<close>, not the flooring \<open>div\<close> and \<open>mod\<close> of HOL) and stop the program when the
  divisor is \<open>0\<close> or when \<open>INT_MIN\<close> is divided by \<open>-1\<close>.

  Everything that can stop a call is a value of \<open>error\<close>: the \<open>assert\<close> in the matrix
  constructors, the \<open>std::domain_error\<close> thrown by the \<open>Fraction\<close> constructor, a division
  by zero, and the overflowing division.
\<close>

subsection \<open>Errors\<close>

datatype error = AssertionFailed | DomainError | DivisionByZero | Overflow

definition bind_r :: "error + 'a \<Rightarrow> ('a \<Rightarrow> error + 'b) \<Rightarrow> error + 'b" where
  "bind_r m f = (case m of Inl e \<Rightarrow> Inl e | Inr v \<Rightarrow> f v)"

text \<open>The short-circuit operators \<open>&&\<close> and \<open>||\<close>: the right operand is not run when the
  left one decides.\<close>

definition and_also :: "error + bool \<Rightarrow> error + bool \<Rightarrow> error + bool" where
  "and_also l r = (case l of Inl e \<Rightarrow> Inl e | Inr b \<Rightarrow> if b then r else Inr False)"

definition or_else :: "error + bool \<Rightarrow> error + bool \<Rightarrow> error + bool" where
  "or_else l r = (case l of Inl e \<Rightarrow> Inl e | Inr b \<Rightarrow> if b then Inr True else r)"

definition not_r :: "error + bool \<Rightarrow> error + bool" where
  "not_r m = (case m of Inl e \<Rightarrow> Inl e | Inr b \<Rightarrow> Inr (\<not> b))"

subsection \<open>Arithmetic of the 32-bit type\<close>

definition INT_MIN :: int where
  "INT_MIN = - 2147483648"

definition INT_MAX :: int where
  "INT_MAX = 2147483647"

definition in_T :: "int \<Rightarrow> bool" where
  "in_T v = (INT_MIN \<le> v \<and> v \<le> INT_MAX)"

definition wrap :: "int \<Rightarrow> int" where
  "wrap v = (v + 2147483648) mod 4294967296 - 2147483648"

definition add_T :: "int \<Rightarrow> int \<Rightarrow> int" where
  "add_T a b = wrap (a + b)"

definition sub_T :: "int \<Rightarrow> int \<Rightarrow> int" where
  "sub_T a b = wrap (a - b)"

definition mul_T :: "int \<Rightarrow> int \<Rightarrow> int" where
  "mul_T a b = wrap (a * b)"

definition div_T :: "int \<Rightarrow> int \<Rightarrow> error + int" where
  "div_T a b =
     (if b = 0 then Inl DivisionByZero
      else if a = INT_MIN \<and> b = - 1 then Inl Overflow
      else Inr (a sdiv b))"

definition rem_T :: "int \<Rightarrow> int \<Rightarrow> error + int" where
  "rem_T a b =
     (if b = 0 then Inl DivisionByZero
      else if a = INT_MIN \<and> b = - 1 then Inl Overflow
      else Inr (a smod b))"

subsection \<open>Matrices\<close>

text \<open>A matrix is its array \<open>vals\<close>.  The constructor copies an initializer list after
  asserting that it has as many entries as the array; \<open>operator[]\<close> takes a
  (column, row) pair and reads \<open>vals[row * N + column]\<close> unchecked.\<close>

type_synonym Matrix3x3 = "int list"
type_synonym Matrix2x2 = "int list"

definition Matrix3x3 :: "int list \<Rightarrow> error + Matrix3x3" where
  "Matrix3x3 values = (if length values = 9 then Inr values else Inl AssertionFailed)"

definition Matrix2x2 :: "int list \<Rightarrow> error + Matrix2x2" where
  "Matrix2x2 values = (if length values = 4 then Inr values else Inl AssertionFailed)"

definition at3 :: "Matrix3x3 \<Rightarrow> nat \<times> nat \<Rightarrow> int" where
  "at3 vals ix = vals ! (snd ix * 3 + fst ix)"

definition at2 :: "Matrix2x2 \<Rightarrow> nat \<times> nat \<Rightarrow> int" where
  "at2 vals ix = vals ! (snd ix * 2 + fst ix)"

text \<open>The six products of the 3x3 determinant are added and subtracted from left to
  right, as the expression in the header is parsed.\<close>

definition det3 :: "Matrix3x3 \<Rightarrow> int" where
  "det3 matrix =
     sub_T (sub_T (sub_T (add_T (add_T
       (mul_T (mul_T (at3 matrix (0, 0)) (at3 matrix (1, 1))) (at3 matrix (2, 2)))
       (mul_T (mul_T (at3 matrix (0, 1)) (at3 matrix (1, 2))) (at3 matrix (2, 0))))
       (mul_T (mul_T (at3 matrix (0, 2)) (at3 matrix (1, 0))) (at3 matrix (2, 1))))
       (mul_T (mul_T (at3 matrix (2, 0)) (at3 matrix (1, 1))) (at3 matrix (0, 2))))
       (mul_T (mul_T (at3 matrix (2, 1)) (at3 matrix (1, 2))) (at3 matrix (0, 0))))
       (mul_T (mul_T (at3 matrix (2, 2)) (at3 matrix (1, 0))) (at3 matrix (0, 1)))"

definition det2 :: "Matrix2x2 \<Rightarrow> int" where
  "det2 matrix =
     sub_T (mul_T (at2 matrix (0, 0)) (at2 matrix (1, 1)))
           (mul_T (at2 matrix (1, 0)) (at2 matrix (0, 1)))"

subsection \<open>Points and segments\<close>

record 'a pos_t =
  x :: 'a
  y :: 'a

type_synonym 'a seg_t = "'a pos_t \<times> 'a pos_t"

subsection \<open>Greatest common divisor and fractions\<close>

text \<open>The loop \<open>while (b) { c = b; b = a % b; a = c; }\<close> followed by \<open>return a\<close>.\<close>

function gcdT :: "int \<Rightarrow> int \<Rightarrow> error + int" where
  "gcdT a b =
     (if b \<noteq> 0
      then (case rem_T a b of Inl e \<Rightarrow> Inl e | Inr r \<Rightarrow> gcdT b r)
      else Inr a)"
  by pat_completeness auto
termination
proof (relation "measure (\<lambda>(a, b). nat \<bar>b\<bar>)")
  show "wf (measure (\<lambda>(a, b). nat \<bar>b\<bar>))"
    by simp
next
  fix a b r :: int
  assume "b \<noteq> 0" and "rem_T a b = Inr r"
  then have "r = a smod b"
    by (simp add: rem_T_def split: if_splits)
  moreover from \<open>b \<noteq> 0\<close> have "a smod b \<in> {- \<bar>b\<bar> + 1..\<bar>b\<bar> - 1}"
    by (rule smod_int_range)
  ultimately have "\<bar>r\<bar> < \<bar>b\<bar>"
    by auto
  then show "((b, r), (a, b)) \<in> measure (\<lambda>(a, b). nat \<bar>b\<bar>)"
    by simp
qed

declare gcdT.simps [simp del]

record frac_t =
  num :: int
  den :: int

text \<open>The constructor throws \<open>std::domain_error\<close> on a zero denominator and stores both
  arguments otherwise.\<close>

definition Fraction :: "int \<Rightarrow> int \<Rightarrow> error + frac_t" where
  "Fraction numerator denominator =
     (if denominator \<noteq> 0 then Inr \<lparr>num = numerator, den = denominator\<rparr>
      else Inl DomainError)"

text \<open>The \<open>const\<close> form of \<open>reduce\<close> builds a new fraction through the constructor; the
  other form assigns to the two fields, one after the other.  Both divide by
  \<open>gcd(num, den)\<close>.\<close>

definition reduce :: "frac_t \<Rightarrow> error + frac_t" where
  "reduce f =
     bind_r (gcdT (num f) (den f)) (\<lambda>divisor.
     bind_r (div_T (num f) divisor) (\<lambda>n.
     bind_r (div_T (den f) divisor) (\<lambda>d.
     Fraction n d)))"

definition reduce_inplace :: "frac_t \<Rightarrow> error + frac_t" where
  "reduce_inplace f =
     bind_r (gcdT (num f) (den f)) (\<lambda>divisor.
     bind_r (div_T (num f) divisor) (\<lambda>n.
     bind_r (div_T (den (f\<lparr>num := n\<rparr>)) divisor) (\<lambda>d.
     Inr (f\<lparr>num := n, den := d\<rparr>))))"

subsection \<open>Orientation and containment\<close>

text \<open>\<open>sgn\<close> subtracts two comparison results, each 0 or 1.\<close>

definition sgnT :: "int \<Rightarrow> int" where
  "sgnT v = of_bool (0 < v) - of_bool (v < 0)"

definition side :: "int seg_t \<Rightarrow> int pos_t \<Rightarrow> error + int" where
  "side seg point =
     bind_r (Matrix3x3 [x (fst seg), y (fst seg), 1,
                        x (snd seg), y (snd seg), 1,
                        x point, y point, 1])
       (\<lambda>matrix. Inr (sgnT (det3 matrix)))"

definition same_side :: "int seg_t \<Rightarrow> int pos_t \<Rightarrow> int pos_t \<Rightarrow> error + bool" where
  "same_side seg point1 point2 =
     bind_r (side seg point1) (\<lambda>s1. bind_r (side seg point2) (\<lambda>s2. Inr (s1 = s2)))"

text \<open>In \<open>lo <= v <= hi\<close> C++ compares \<open>lo <= v\<close> first and then the resulting truth value,
  promoted to 0 or 1, with \<open>hi\<close>.\<close>

definition seg_contains :: "int seg_t \<Rightarrow> int pos_t \<Rightarrow> error + bool" where
  "seg_contains seg point =
     and_also
       (and_also
          (bind_r (side seg point) (\<lambda>s. Inr (s = 0)))
          (Inr (of_bool (min (x (fst seg)) (x (snd seg)) \<le> x point)
                  \<le> max (x (fst seg)) (x (snd seg)))))
       (Inr (of_bool (min (y (fst seg)) (y (snd seg)) \<le> y point)
               \<le> max (y (fst seg)) (y (snd seg))))"

definition seg_intersects :: "int seg_t \<Rightarrow> int seg_t \<Rightarrow> error + bool" where
  "seg_intersects seg1 seg2 =
     or_else
       (or_else
          (or_else
             (or_else
                (and_also (not_r (same_side seg1 (fst seg2) (snd seg2)))
                          (not_r (same_side seg2 (fst seg1) (snd seg1))))
                (seg_contains seg1 (fst seg2)))
             (seg_contains seg1 (snd seg2)))
          (seg_contains seg2 (fst seg1)))
       (seg_contains seg2 (snd seg1))"

subsection \<open>Intersection point of two lines\<close>

definition seg_intersection :: "int seg_t \<Rightarrow> int seg_t \<Rightarrow> error + frac_t pos_t option" where
  "seg_intersection seg1 seg2 =
     bind_r (Matrix2x2 [sub_T (x (fst seg1)) (x (snd seg1)), sub_T (y (fst seg1)) (y (snd seg1)),
                        sub_T (x (fst seg2)) (x (snd seg2)), sub_T (y (fst seg2)) (y (snd seg2))])
       (\<lambda>den_m.
          let dd = det2 den_m in
          if dd = 0 then Inr None
          else
            bind_r (Matrix2x2 [x (fst seg1), y (fst seg1), x (snd seg1), y (snd seg1)])
              (\<lambda>m1.
            bind_r (Matrix2x2 [x (fst seg2), y (fst seg2), x (snd seg2), y (snd seg2)])
              (\<lambda>m2.
            bind_r (Matrix2x2 [det2 m1, sub_T (x (fst seg1)) (x (snd seg1)),
                               det2 m2, sub_T (x (fst seg2)) (x (snd seg2))])
              (\<lambda>xnum.
            bind_r (Matrix2x2 [det2 m1, sub_T (y (fst seg1)) (y (snd seg1)),
                               det2 m2, sub_T (y (fst seg2)) (y (snd seg2))])
              (\<lambda>ynum.
            bind_r (Fraction (det2 xnum) dd)
              (\<lambda>fx.
            bind_r (Fraction (det2 ynum) dd)
              (\<lambda>fy.
            bind_r (reduce_inplace fx)
              (\<lambda>rx.
            bind_r (reduce_inplace fy)
              (\<lambda>ry. Inr (Some \<lparr>x = rx, y = ry\<rparr>))))))))))"

subsection \<open>Vocabulary of the specification\<close>

text \<open>The definitions of this subsection are not taken from the header: they say, over
  the integers and without wrap-around, what the words of the specification mean, so
  that the functions above can be compared with them.\<close>

text \<open>The determinant of a 3x3 matrix given by its nine entries, row by row, expanded
  along the first row.\<close>

fun det3_exact :: "int list \<Rightarrow> int" where
  "det3_exact [a, b, c, d, e, f, g, h, i] =
     a * (e * i - f * h) - b * (d * i - f * g) + c * (d * h - e * g)"
| "det3_exact _ = 0"

text \<open>The three determinants of Cramer's rule for the lines through two segments.\<close>

definition den_det :: "int seg_t \<Rightarrow> int seg_t \<Rightarrow> int" where
  "den_det seg1 seg2 =
     (x (fst seg1) - x (snd seg1)) * (y (fst seg2) - y (snd seg2))
   - (y (fst seg1) - y (snd seg1)) * (x (fst seg2) - x (snd seg2))"

definition x_num :: "int seg_t \<Rightarrow> int seg_t \<Rightarrow> int" where
  "x_num seg1 seg2 =
     (x (fst seg1) * y (snd seg1) - y (fst seg1) * x (snd seg1)) * (x (fst seg2) - x (snd seg2))
   - (x (fst seg1) - x (snd seg1)) * (x (fst seg2) * y (snd seg2) - y (fst seg2) * x (snd seg2))"

definition y_num :: "int seg_t \<Rightarrow> int seg_t \<Rightarrow> int" where
  "y_num seg1 seg2 =
     (x (fst seg1) * y (snd seg1) - y (fst seg1) * x (snd seg1)) * (y (fst seg2) - y (snd seg2))
   - (y (fst seg1) - y (snd seg1)) * (x (fst seg2) * y (snd seg2) - y (fst seg2) * x (snd seg2))"

text \<open>The value of a fraction as a rational number, and the line through the two end points
  of a segment as a set of rational points.\<close>

definition frac_val :: "frac_t \<Rightarrow> rat" where
  "frac_val f = of_int (num f) / of_int (den f)"

definition on_line :: "int seg_t \<Rightarrow> rat \<times> rat \<Rightarrow> bool" where
  "on_line seg P =
     ((of_int (x (snd seg)) - of_int (x (fst seg))) * (snd P - of_int (y (fst seg)))
      = (of_int (y (snd seg)) - of_int (y (fst seg))) * (fst P - of_int (x (fst seg))))"

text \<open>Neither the header nor its specification says which way the \<open>y\<close> axis points, and
  left and right of a directed line change places with it.  The normal of a directed
  segment that points to its left is the direction turned by a quarter turn,
  counterclockwise when \<open>y\<close> grows upwards and clockwise on the page when \<open>y\<close> grows
  downwards.  A point is to the left when its offset from the first end point has a
  positive component along that normal, to the right when the component is negative, and
  on the line when it vanishes.\<close>

datatype axes = Y_up | Y_down

definition left_normal :: "axes \<Rightarrow> int seg_t \<Rightarrow> int \<times> int" where
  "left_normal ax seg =
     (case ax of
        Y_up \<Rightarrow> (- (y (snd seg) - y (fst seg)), x (snd seg) - x (fst seg))
      | Y_down \<Rightarrow> (y (snd seg) - y (fst seg), - (x (snd seg) - x (fst seg))))"

definition offset_along_normal :: "axes \<Rightarrow> int seg_t \<Rightarrow> int pos_t \<Rightarrow> int" where
  "offset_along_normal ax seg p =
     fst (left_normal ax seg) * (x p - x (fst seg))
   + snd (left_normal ax seg) * (y p - y (fst seg))"

definition left_of :: "axes \<Rightarrow> int seg_t \<Rightarrow> int pos_t \<Rightarrow> bool" where
  "left_of ax seg p = (0 < offset_along_normal ax seg p)"

definition right_of :: "axes \<Rightarrow> int seg_t \<Rightarrow> int pos_t \<Rightarrow> bool" where
  "right_of ax seg p = (offset_along_normal ax seg p < 0)"

text \<open>Twice the signed area of the triangle of the two end points and the point; being
  collinear and lying on two different sides of the line do not depend on the axes.\<close>

definition cross :: "int seg_t \<Rightarrow> int pos_t \<Rightarrow> int" where
  "cross seg p =
     (x (snd seg) - x (fst seg)) * (y p - y (fst seg))
   - (y (snd seg) - y (fst seg)) * (x p - x (fst seg))"

definition collinear :: "int seg_t \<Rightarrow> int pos_t \<Rightarrow> bool" where
  "collinear seg p = (cross seg p = 0)"

definition opposite_sides :: "int seg_t \<Rightarrow> int pos_t \<Rightarrow> int pos_t \<Rightarrow> bool" where
  "opposite_sides seg p q =
     (0 < cross seg p \<and> cross seg q < 0 \<or> cross seg p < 0 \<and> 0 < cross seg q)"

text \<open>The closed axis-aligned bounding box of a segment, as two two-sided range checks.\<close>

definition in_box :: "int seg_t \<Rightarrow> int pos_t \<Rightarrow> bool" where
  "in_box seg p =
     (min (x (fst seg)) (x (snd seg)) \<le> x p \<and> x p \<le> max (x (fst seg)) (x (snd seg)) \<and>
      min (y (fst seg)) (y (snd seg)) \<le> y p \<and> y p \<le> max (y (fst seg)) (y (snd seg)))"

definition on_segment :: "int seg_t \<Rightarrow> int pos_t \<Rightarrow> bool" where
  "on_segment seg p = (collinear seg p \<and> in_box seg p)"

definition seg_intersects_spec :: "int seg_t \<Rightarrow> int seg_t \<Rightarrow> bool" where
  "seg_intersects_spec seg1 seg2 =
     (opposite_sides seg1 (fst seg2) (snd seg2) \<and> opposite_sides seg2 (fst seg1) (snd seg1)
      \<or> on_segment seg1 (fst seg2) \<or> on_segment seg1 (snd seg2)
      \<or> on_segment seg2 (fst seg1) \<or> on_segment seg2 (snd seg1))"

text \<open>The direction vector of a segment, and linear dependence of two integer vectors.\<close>

definition direction :: "int seg_t \<Rightarrow> int \<times> int" where
  "direction seg = (x (fst seg) - x (snd seg), y (fst seg) - y (snd seg))"

definition lin_dep :: "int \<times> int \<Rightarrow> int \<times> int \<Rightarrow> bool" where
  "lin_dep u v =
     (\<exists>a b. (a \<noteq> 0 \<or> b \<noteq> 0) \<and> a * fst u + b * fst v = 0 \<and> a * snd u + b * snd v = 0)"

section \<open>Properties\<close>

subsection \<open>Sequencing\<close>

lemma bind_r_Inr: "bind_r (Inr v) f = f v"
  by (simp add: bind_r_def)

lemma bind_r_Inl: "bind_r (Inl e) f = Inl e"
  by (simp add: bind_r_def)

subsection \<open>Wrap-around arithmetic\<close>

lemma wrap_id: "in_T v \<Longrightarrow> wrap v = v"
  by (simp add: in_T_def INT_MIN_def INT_MAX_def wrap_def)

lemma in_T_wrap: "in_T (wrap v)"
  by (simp add: in_T_def INT_MIN_def INT_MAX_def wrap_def)

lemma wrap_add_left: "wrap (wrap a + b) = wrap (a + b)"
  by (simp add: wrap_def mod_simps algebra_simps)

lemma wrap_add_right: "wrap (a + wrap b) = wrap (a + b)"
  by (simp add: wrap_def mod_simps algebra_simps)

lemma wrap_diff_left: "wrap (wrap a - b) = wrap (a - b)"
  by (simp add: wrap_def mod_simps algebra_simps)

lemma wrap_diff_right: "wrap (a - wrap b) = wrap (a - b)"
proof -
  have "(a - ((b + 2147483648) mod 4294967296 - 2147483648) + 2147483648) mod 4294967296
      = (a + 4294967296 - (b + 2147483648) mod 4294967296) mod (4294967296::int)"
    by (simp add: algebra_simps)
  also have "\<dots> = (a + 4294967296 - (b + 2147483648)) mod 4294967296"
    by (simp only: mod_diff_right_eq)
  also have "\<dots> = (a - b + 2147483648) mod 4294967296"
    by (simp add: algebra_simps flip: mod_add_self2 [of "a - b + 2147483648" 4294967296])
  finally show ?thesis
    by (simp add: wrap_def)
qed

lemma wrap_mult_left: "wrap (wrap a * b) = wrap (a * b)"
proof -
  have "(((a + 2147483648) mod 4294967296 - 2147483648) * b) mod 4294967296
      = (((a + 2147483648) mod 4294967296 - 2147483648) mod 4294967296 * b) mod (4294967296::int)"
    by (simp only: mod_mult_left_eq)
  also have "((a + 2147483648) mod 4294967296 - 2147483648) mod 4294967296
      = a mod (4294967296::int)"
    by (simp add: mod_simps)
  finally have "(((a + 2147483648) mod 4294967296 - 2147483648) * b) mod 4294967296
      = (a * b) mod (4294967296::int)"
    by (simp add: mod_simps)
  then have "(((a + 2147483648) mod 4294967296 - 2147483648) * b + 2147483648) mod 4294967296
      = (a * b + 2147483648) mod (4294967296::int)"
    by (metis mod_add_left_eq)
  then show ?thesis
    by (simp add: wrap_def)
qed

lemma wrap_mult_right: "wrap (a * wrap b) = wrap (a * b)"
  using wrap_mult_left [of b a] by (simp add: mult.commute)

lemmas wrap_simps =
  wrap_add_left wrap_add_right wrap_diff_left wrap_diff_right wrap_mult_left wrap_mult_right

lemma det2_eq: "det2 [a, b, c, d] = wrap (a * d - b * c)"
  by (simp add: det2_def at2_def sub_T_def mul_T_def wrap_simps)

lemma det3_eq:
  "det3 [a, b, c, d, e, f, g, h, i] = wrap (det3_exact [a, b, c, d, e, f, g, h, i])"
proof -
  have "det3 [a, b, c, d, e, f, g, h, i]
      = wrap (a * e * i + d * h * c + g * b * f - c * e * g - f * h * a - i * b * d)"
    by (simp add: det3_def at3_def sub_T_def add_T_def mul_T_def wrap_simps)
  also have "a * e * i + d * h * c + g * b * f - c * e * g - f * h * a - i * b * d
      = det3_exact [a, b, c, d, e, f, g, h, i]"
    by (simp add: algebra_simps)
  finally show ?thesis .
qed

subsection \<open>Determinants and orientation\<close>

lemma sgnT_cases: "sgnT v = (if v < 0 then - 1 else if v = 0 then 0 else 1)"
  by (simp add: sgnT_def)

lemma cross_det:
  "cross seg p =
     det3_exact [x (fst seg), y (fst seg), 1, x (snd seg), y (snd seg), 1, x p, y p, 1]"
  by (simp add: cross_def algebra_simps)

lemma side_det:
  "side seg p =
     Inr (sgnT (wrap (det3_exact
       [x (fst seg), y (fst seg), 1, x (snd seg), y (snd seg), 1, x p, y p, 1])))"
proof -
  have "Matrix3x3 [x (fst seg), y (fst seg), 1, x (snd seg), y (snd seg), 1, x p, y p, 1]
      = Inr [x (fst seg), y (fst seg), 1, x (snd seg), y (snd seg), 1, x p, y p, 1]"
    by (simp add: Matrix3x3_def)
  then show ?thesis
    by (simp only: side_def bind_r_def sum.case det3_eq)
qed

lemma side_eq: "side seg p = Inr (sgnT (wrap (cross seg p)))"
  by (simp only: side_det cross_det)

lemma same_side_eq:
  "same_side seg p q = Inr (sgnT (wrap (cross seg p)) = sgnT (wrap (cross seg q)))"
  by (simp add: same_side_def side_eq bind_r_def)

lemma seg_contains_eq:
  "seg_contains seg p =
     Inr (wrap (cross seg p) = 0
          \<and> of_bool (min (x (fst seg)) (x (snd seg)) \<le> x p) \<le> max (x (fst seg)) (x (snd seg))
          \<and> of_bool (min (y (fst seg)) (y (snd seg)) \<le> y p) \<le> max (y (fst seg)) (y (snd seg)))"
  by (simp add: seg_contains_def side_eq bind_r_def and_also_def sgnT_cases)

lemma and_also_Inr: "and_also (Inr a) (Inr b) = Inr (a \<and> b)"
  by (simp add: and_also_def)

lemma or_else_Inr: "or_else (Inr a) (Inr b) = Inr (a \<or> b)"
  by (simp add: or_else_def)

lemma not_r_Inr: "not_r (Inr a) = Inr (\<not> a)"
  by (simp add: not_r_def)

text \<open>As soon as the larger coordinate of the segment is at least 1 on both axes, the two
  chained comparisons hold for every point and only the determinant is tested.\<close>

lemma seg_contains_box_ignored:
  assumes "1 \<le> max (x (fst seg)) (x (snd seg))" and "1 \<le> max (y (fst seg)) (y (snd seg))"
  shows "seg_contains seg p = Inr (wrap (cross seg p) = 0)"
proof -
  have "of_bool b \<le> max (x (fst seg)) (x (snd seg))" for b
    using assms(1) by (cases b) simp_all
  moreover have "of_bool b \<le> max (y (fst seg)) (y (snd seg))" for b
    using assms(2) by (cases b) simp_all
  ultimately show ?thesis
    by (simp add: seg_contains_eq)
qed

lemma seg_intersects_eq:
  "seg_intersects seg1 seg2 =
     Inr (sgnT (wrap (cross seg1 (fst seg2))) \<noteq> sgnT (wrap (cross seg1 (snd seg2)))
          \<and> sgnT (wrap (cross seg2 (fst seg1))) \<noteq> sgnT (wrap (cross seg2 (snd seg1)))
          \<or> seg_contains seg1 (fst seg2) = Inr True
          \<or> seg_contains seg1 (snd seg2) = Inr True
          \<or> seg_contains seg2 (fst seg1) = Inr True
          \<or> seg_contains seg2 (snd seg1) = Inr True)"
  unfolding seg_intersects_def seg_contains_eq same_side_eq not_r_Inr and_also_Inr or_else_Inr
  by simp

subsection \<open>The Euclidean loop\<close>

lemma gcdT_0 [simp]: "gcdT a 0 = Inr a"
  by (simp add: gcdT.simps)

lemma gcdT_rec: "b \<noteq> 0 \<Longrightarrow> gcdT a b = bind_r (rem_T a b) (gcdT b)"
  by (subst gcdT.simps) (simp add: bind_r_def)

lemma rem_T_Inr: "rem_T a b = Inr r \<Longrightarrow> r = a smod b \<and> b \<noteq> 0"
  by (simp add: rem_T_def split: if_splits)

lemma div_T_Inr: "div_T a b = Inr q \<Longrightarrow> q = a sdiv b \<and> b \<noteq> 0"
  by (simp add: div_T_def split: if_splits)

lemma div_T_ok: "b \<noteq> 0 \<Longrightarrow> INT_MIN < a \<Longrightarrow> div_T a b = Inr (a sdiv b)"
  by (simp add: div_T_def)

lemma rem_T_ok: "b \<noteq> 0 \<Longrightarrow> INT_MIN < a \<Longrightarrow> rem_T a b = Inr (a smod b)"
  by (simp add: rem_T_def)

lemma gcd_smod: "gcd b (a smod b) = gcd a (b::int)"
proof -
  have "a smod b = a - (a sdiv b) * b"
    by (simp add: minus_sdiv_mult_eq_smod)
  then show ?thesis
    by (metis gcd.commute gcd_add_mult add.commute diff_add_cancel)
qed

lemma abs_gcdT: "gcdT a b = Inr g \<Longrightarrow> \<bar>g\<bar> = gcd a b"
proof (induction a b rule: gcdT.induct)
  case (1 a b)
  show ?case
  proof (cases "b = 0")
    case True
    with 1 show ?thesis by simp
  next
    case False
    with "1.prems" obtain r where r: "rem_T a b = Inr r" and g: "gcdT b r = Inr g"
      by (auto simp add: gcdT_rec bind_r_def split: sum.splits)
    from "1.IH" [OF False r g] have "\<bar>g\<bar> = gcd b r" .
    with rem_T_Inr [OF r] show ?thesis
      by (simp add: gcd_smod)
  qed
qed

lemma gcdT_nonzero: "b \<noteq> 0 \<Longrightarrow> gcdT a b = Inr g \<Longrightarrow> g \<noteq> 0"
  using abs_gcdT [of a b g] by auto

lemma gcdT_dvd: "gcdT a b = Inr g \<Longrightarrow> g dvd a \<and> g dvd b"
  using abs_gcdT [of a b g] by (metis abs_dvd_iff gcd_dvd1 gcd_dvd2)

text \<open>The loop runs into the overflowing remainder only through \<open>INT_MIN\<close>: it returns
  whenever its first argument is not \<open>INT_MIN\<close> and its second is a value of \<open>T\<close> other than
  \<open>INT_MIN\<close>.\<close>

lemma gcdT_total: "INT_MIN < a \<Longrightarrow> \<bar>b\<bar> \<le> INT_MAX \<Longrightarrow> \<exists>g. gcdT a b = Inr g"
proof (induction a b rule: gcdT.induct)
  case (1 a b)
  show ?case
  proof (cases "b = 0")
    case True
    then show ?thesis by simp
  next
    case False
    with "1.prems" have r: "rem_T a b = Inr (a smod b)"
      by (simp add: rem_T_ok)
    from False have "a smod b \<in> {- \<bar>b\<bar> + 1..\<bar>b\<bar> - 1}"
      by (rule smod_int_range)
    with "1.prems" have "\<bar>a smod b\<bar> \<le> INT_MAX" and "INT_MIN < b"
      by (auto simp add: INT_MIN_def INT_MAX_def)
    with "1.IH" [OF False r] obtain g where "gcdT b (a smod b) = Inr g"
      by blast
    with False r show ?thesis
      by (simp add: gcdT_rec bind_r_def)
  qed
qed

lemma sdiv_exact: "g dvd a \<Longrightarrow> (a sdiv g) * g = (a::int)"
  using sdiv_mult_smod_eq [of a g]
  by (auto simp: smod_int_alt_def elim: dvdE)

lemma sdiv_self: "d \<noteq> 0 \<Longrightarrow> d sdiv d = (1::int)"
  by (simp add: signed_divide_int_def sgn_if)

subsection \<open>Reduction\<close>

text \<open>What dividing both fields by a common divisor \<open>g\<close> with \<open>\<bar>g\<bar> = gcd n d\<close> gives.\<close>

lemma quotients_cross:
  fixes n d g :: int
  assumes "g dvd n" and "g dvd d"
  shows "(n sdiv g) * d = n * (d sdiv g)"
proof -
  have "(n sdiv g) * d = (n sdiv g) * ((d sdiv g) * g)"
    using assms by (simp add: sdiv_exact)
  also have "\<dots> = ((n sdiv g) * g) * (d sdiv g)"
    by (simp add: mult_ac)
  also have "\<dots> = n * (d sdiv g)"
    using assms by (simp add: sdiv_exact)
  finally show ?thesis .
qed

lemma quotient_nonzero:
  fixes d g :: int
  assumes "g dvd d" and "d \<noteq> 0"
  shows "d sdiv g \<noteq> 0"
  using sdiv_exact [OF assms(1)] assms(2) by auto

lemma quotients_coprime:
  fixes n d g :: int
  assumes "g dvd n" and "g dvd d" and "\<bar>g\<bar> = gcd n d" and "d \<noteq> 0"
  shows "coprime (n sdiv g) (d sdiv g)"
proof -
  have g0: "g \<noteq> 0" using assms(3,4) by auto
  have n: "n = (n sdiv g) * g" and d: "d = (d sdiv g) * g"
    using assms(1,2) by (simp_all add: sdiv_exact)
  have m: "gcd (a * c) (b * c) = gcd a b * \<bar>c\<bar>" for a b c :: int
    using gcd_mult_distrib_int [of c a b] by (simp add: mult.commute)
  have "gcd n d = gcd ((n sdiv g) * g) ((d sdiv g) * g)"
    using n d by simp
  also have "\<dots> = gcd (n sdiv g) (d sdiv g) * \<bar>g\<bar>"
    by (rule m)
  finally have "gcd n d = gcd (n sdiv g) (d sdiv g) * \<bar>g\<bar>" .
  with assms(3) g0 have "gcd (n sdiv g) (d sdiv g) = 1"
    by simp
  then show ?thesis by (simp add: coprime_iff_gcd_eq_1)
qed

lemma quotient_abs_le: "\<bar>a sdiv g\<bar> \<le> \<bar>a\<bar>" for a g :: int
  using sdiv_int_range [of a g] by auto

text \<open>Both forms of \<open>reduce\<close>, when they return, return the two quotients by the value of
  \<open>gcd\<close>; and they return on every fraction whose fields are values of \<open>T\<close> other than
  \<open>INT_MIN\<close> and whose denominator is not \<open>0\<close>.\<close>

lemma reduce_inplace_Inr:
  assumes "reduce_inplace f = Inr r"
  shows "\<exists>g. gcdT (num f) (den f) = Inr g \<and> g \<noteq> 0
           \<and> r = f\<lparr>num := num f sdiv g, den := den f sdiv g\<rparr>"
  using assms
  by (auto simp add: reduce_inplace_def bind_r_def split: sum.splits dest!: div_T_Inr)

lemma reduce_Inr:
  assumes "reduce f = Inr r"
  shows "\<exists>g. gcdT (num f) (den f) = Inr g \<and> g \<noteq> 0
           \<and> r = \<lparr>num = num f sdiv g, den = den f sdiv g\<rparr>"
  using assms
  by (auto simp add: reduce_def bind_r_def Fraction_def split: sum.splits if_splits
      dest!: div_T_Inr)

lemma reduce_inplace_total:
  assumes "den f \<noteq> 0" and "\<bar>num f\<bar> \<le> INT_MAX" and "\<bar>den f\<bar> \<le> INT_MAX"
  shows "\<exists>g. gcdT (num f) (den f) = Inr g
           \<and> reduce_inplace f = Inr (f\<lparr>num := num f sdiv g, den := den f sdiv g\<rparr>)"
proof -
  have n: "INT_MIN < num f" and d: "INT_MIN < den f"
    using assms(2,3) by (auto simp add: INT_MIN_def INT_MAX_def)
  from gcdT_total [OF n assms(3)] obtain g where g: "gcdT (num f) (den f) = Inr g"
    by blast
  with assms(1) have "g \<noteq> 0"
    by (simp add: gcdT_nonzero)
  with g n d show ?thesis
    by (simp add: reduce_inplace_def bind_r_def div_T_ok)
qed

lemma reduce_total:
  assumes "den f \<noteq> 0" and "\<bar>num f\<bar> \<le> INT_MAX" and "\<bar>den f\<bar> \<le> INT_MAX"
  shows "\<exists>g. gcdT (num f) (den f) = Inr g
           \<and> reduce f = Inr \<lparr>num = num f sdiv g, den = den f sdiv g\<rparr>"
proof -
  have n: "INT_MIN < num f" and d: "INT_MIN < den f"
    using assms(2,3) by (auto simp add: INT_MIN_def INT_MAX_def)
  from gcdT_total [OF n assms(3)] obtain g where g: "gcdT (num f) (den f) = Inr g"
    by blast
  with assms(1) have g0: "g \<noteq> 0"
    by (simp add: gcdT_nonzero)
  from gcdT_dvd [OF g] assms(1) have "den f sdiv g \<noteq> 0"
    by (simp add: quotient_nonzero)
  with g g0 n d show ?thesis
    by (simp add: reduce_def bind_r_def div_T_ok Fraction_def)
qed

subsection \<open>The intersection point\<close>

lemma seg_intersection_eq:
  "seg_intersection seg1 seg2 =
     (if wrap (den_det seg1 seg2) = 0 then Inr None
      else
        bind_r (reduce_inplace \<lparr>num = wrap (x_num seg1 seg2), den = wrap (den_det seg1 seg2)\<rparr>)
          (\<lambda>rx.
        bind_r (reduce_inplace \<lparr>num = wrap (y_num seg1 seg2), den = wrap (den_det seg1 seg2)\<rparr>)
          (\<lambda>ry. Inr (Some \<lparr>x = rx, y = ry\<rparr>))))"
proof -
  have dd: "det2 [sub_T (x (fst seg1)) (x (snd seg1)), sub_T (y (fst seg1)) (y (snd seg1)),
                  sub_T (x (fst seg2)) (x (snd seg2)), sub_T (y (fst seg2)) (y (snd seg2))]
      = wrap (den_det seg1 seg2)"
    by (simp add: det2_def at2_def mul_T_def sub_T_def wrap_simps den_det_def)
  have xn: "det2 [det2 [x (fst seg1), y (fst seg1), x (snd seg1), y (snd seg1)],
                  sub_T (x (fst seg1)) (x (snd seg1)),
                  det2 [x (fst seg2), y (fst seg2), x (snd seg2), y (snd seg2)],
                  sub_T (x (fst seg2)) (x (snd seg2))]
      = wrap (x_num seg1 seg2)"
    by (simp add: det2_def at2_def mul_T_def sub_T_def wrap_simps x_num_def)
  have yn: "det2 [det2 [x (fst seg1), y (fst seg1), x (snd seg1), y (snd seg1)],
                  sub_T (y (fst seg1)) (y (snd seg1)),
                  det2 [x (fst seg2), y (fst seg2), x (snd seg2), y (snd seg2)],
                  sub_T (y (fst seg2)) (y (snd seg2))]
      = wrap (y_num seg1 seg2)"
    by (simp add: det2_def at2_def mul_T_def sub_T_def wrap_simps y_num_def)
  have m4: "Matrix2x2 [a, b, c, d] = Inr [a, b, c, d]" for a b c d
    by (simp add: Matrix2x2_def)
  show ?thesis
    by (simp add: seg_intersection_def m4 bind_r_Inr Let_def Fraction_def dd xn yn)
qed

lemma wrap_zero_iff: "wrap v = 0 \<longleftrightarrow> 4294967296 dvd v"
proof -
  have "wrap v = 0 \<longleftrightarrow> (v + 2147483648) mod 4294967296 = 2147483648 mod (4294967296::int)"
    by (simp add: wrap_def)
  also have "\<dots> \<longleftrightarrow> 4294967296 dvd v"
    by (metis add_diff_cancel_right' mod_eq_dvd_iff)
  finally show ?thesis .
qed

lemma seg_intersection_None: "seg_intersection seg1 seg2 = Inr None \<longleftrightarrow> wrap (den_det seg1 seg2) = 0"
  by (simp add: seg_intersection_eq bind_r_def split: sum.splits)

text \<open>The fraction \<open>n/d\<close> divided through by the value \<open>g\<close> of \<open>gcd(n, d)\<close>.\<close>

lemma reduced_props:
  assumes g: "gcdT n d = Inr g" and d: "d \<noteq> 0"
    and n: "\<bar>n\<bar> \<le> INT_MAX" and d': "\<bar>d\<bar> \<le> INT_MAX"
  shows "d sdiv g \<noteq> 0"
    and "(n sdiv g) * d = n * (d sdiv g)"
    and "coprime (n sdiv g) (d sdiv g)"
    and "frac_val \<lparr>num = n sdiv g, den = d sdiv g\<rparr> = of_int n / of_int d"
    and "\<exists>h. gcdT (n sdiv g) (d sdiv g) = Inr h \<and> \<bar>h\<bar> = 1"
proof -
  from gcdT_dvd [OF g] have dv: "g dvd n" "g dvd d"
    by simp_all
  show nz: "d sdiv g \<noteq> 0"
    using dv(2) d by (rule quotient_nonzero)
  show cr: "(n sdiv g) * d = n * (d sdiv g)"
    using dv by (rule quotients_cross)
  show cp: "coprime (n sdiv g) (d sdiv g)"
    using dv abs_gcdT [OF g] d by (rule quotients_coprime)
  show "frac_val \<lparr>num = n sdiv g, den = d sdiv g\<rparr> = of_int n / of_int d"
    using cr nz d by (simp add: frac_val_def frac_eq_eq flip: of_int_mult)
  have "\<bar>n sdiv g\<bar> \<le> INT_MAX" "\<bar>d sdiv g\<bar> \<le> INT_MAX"
    using quotient_abs_le [of n g] quotient_abs_le [of d g] n d' by simp_all
  then have "INT_MIN < n sdiv g" "\<bar>d sdiv g\<bar> \<le> INT_MAX"
    by (auto simp add: INT_MIN_def INT_MAX_def)
  then obtain h where h: "gcdT (n sdiv g) (d sdiv g) = Inr h"
    using gcdT_total by blast
  with abs_gcdT [OF h] cp show "\<exists>h. gcdT (n sdiv g) (d sdiv g) = Inr h \<and> \<bar>h\<bar> = 1"
    by (simp add: coprime_iff_gcd_eq_1)
qed

lemma on_line_computed1:
  assumes "den_det seg1 seg2 \<noteq> 0"
  shows "on_line seg1 (of_int (x_num seg1 seg2) / of_int (den_det seg1 seg2),
                       of_int (y_num seg1 seg2) / of_int (den_det seg1 seg2))"
proof -
  have "(x (snd seg1) - x (fst seg1)) * (y_num seg1 seg2 - y (fst seg1) * den_det seg1 seg2)
      = (y (snd seg1) - y (fst seg1)) * (x_num seg1 seg2 - x (fst seg1) * den_det seg1 seg2)"
    by (simp add: x_num_def y_num_def den_det_def algebra_simps)
  then have "of_int ((x (snd seg1) - x (fst seg1)) * (y_num seg1 seg2 - y (fst seg1) * den_det seg1 seg2))
      = (of_int ((y (snd seg1) - y (fst seg1)) * (x_num seg1 seg2 - x (fst seg1) * den_det seg1 seg2)) :: rat)"
    by (simp only:)
  with assms show ?thesis
    by (simp add: on_line_def field_simps)
qed

lemma on_line_computed2:
  assumes "den_det seg1 seg2 \<noteq> 0"
  shows "on_line seg2 (of_int (x_num seg1 seg2) / of_int (den_det seg1 seg2),
                       of_int (y_num seg1 seg2) / of_int (den_det seg1 seg2))"
proof -
  have "(x (snd seg2) - x (fst seg2)) * (y_num seg1 seg2 - y (fst seg2) * den_det seg1 seg2)
      = (y (snd seg2) - y (fst seg2)) * (x_num seg1 seg2 - x (fst seg2) * den_det seg1 seg2)"
    by (simp add: x_num_def y_num_def den_det_def algebra_simps)
  then have "of_int ((x (snd seg2) - x (fst seg2)) * (y_num seg1 seg2 - y (fst seg2) * den_det seg1 seg2))
      = (of_int ((y (snd seg2) - y (fst seg2)) * (x_num seg1 seg2 - x (fst seg2) * den_det seg1 seg2)) :: rat)"
    by (simp only:)
  with assms show ?thesis
    by (simp add: on_line_def field_simps)
qed

lemma on_line_unique:
  assumes dd: "den_det seg1 seg2 \<noteq> 0"
    and P: "on_line seg1 P" "on_line seg2 P"
    and Q: "on_line seg1 Q" "on_line seg2 Q"
  shows "P = Q"
proof -
  define u1 u2 v1 v2 :: rat where
    "u1 = of_int (x (snd seg1)) - of_int (x (fst seg1))" and
    "u2 = of_int (y (snd seg1)) - of_int (y (fst seg1))" and
    "v1 = of_int (x (snd seg2)) - of_int (x (fst seg2))" and
    "v2 = of_int (y (snd seg2)) - of_int (y (fst seg2))"
  define dX dY where "dX = fst P - fst Q" and "dY = snd P - snd Q"
  have D: "u1 * v2 - u2 * v1 = of_int (den_det seg1 seg2)"
    by (simp add: u1_def u2_def v1_def v2_def den_det_def algebra_simps)
  have e1: "u1 * dY = u2 * dX"
    using P(1) Q(1) by (simp add: on_line_def u1_def u2_def dX_def dY_def algebra_simps)
  have e2: "v1 * dY = v2 * dX"
    using P(2) Q(2) by (simp add: on_line_def v1_def v2_def dX_def dY_def algebra_simps)
  have "(u1 * v2 - u2 * v1) * dX = u1 * (v2 * dX) - v1 * (u2 * dX)"
    by (simp add: algebra_simps)
  also have "\<dots> = u1 * (v1 * dY) - v1 * (u1 * dY)"
    by (simp only: e1 e2)
  also have "\<dots> = 0"
    by simp
  finally have X: "dX = 0"
    using dd D by simp
  have "(u1 * v2 - u2 * v1) * dY = v2 * (u1 * dY) - u2 * (v1 * dY)"
    by (simp add: algebra_simps)
  also have "\<dots> = v2 * (u2 * dX) - u2 * (v2 * dX)"
    by (simp only: e1 e2)
  also have "\<dots> = 0"
    by simp
  finally have Y: "dY = 0"
    using dd D by simp
  from X Y show ?thesis
    by (simp add: dX_def dY_def prod_eq_iff)
qed

lemma den_det_lin_dep: "den_det seg1 seg2 = 0 \<longleftrightarrow> lin_dep (direction seg1) (direction seg2)"
proof -
  define u1 u2 v1 v2 where "u1 = x (fst seg1) - x (snd seg1)" and "u2 = y (fst seg1) - y (snd seg1)"
    and "v1 = x (fst seg2) - x (snd seg2)" and "v2 = y (fst seg2) - y (snd seg2)"
  have D: "den_det seg1 seg2 = u1 * v2 - u2 * v1"
    by (simp add: den_det_def u1_def u2_def v1_def v2_def)
  have L: "lin_dep (direction seg1) (direction seg2)
        \<longleftrightarrow> (\<exists>a b. (a \<noteq> 0 \<or> b \<noteq> 0) \<and> a * u1 + b * v1 = 0 \<and> a * u2 + b * v2 = 0)"
    by (simp add: lin_dep_def direction_def u1_def u2_def v1_def v2_def)
  have "\<exists>a b. (a \<noteq> 0 \<or> b \<noteq> 0) \<and> a * u1 + b * v1 = 0 \<and> a * u2 + b * v2 = 0"
    if z: "u1 * v2 - u2 * v1 = 0"
  proof (cases "v2 \<noteq> 0")
    case True
    have "v2 * u1 + (- u2) * v1 = 0" "v2 * u2 + (- u2) * v2 = 0"
      using z by (simp_all add: algebra_simps)
    with True show ?thesis by blast
  next
    case v2: False
    show ?thesis
    proof (cases "v1 \<noteq> 0")
      case True
      have "v1 * u1 + (- u1) * v1 = 0" "v1 * u2 + (- u1) * v2 = 0"
        using z v2 by (simp_all add: algebra_simps)
      with True show ?thesis by blast
    next
      case False
      with v2 have "0 * u1 + 1 * v1 = 0" "0 * u2 + 1 * v2 = 0" "(1::int) \<noteq> 0"
        by simp_all
      then show ?thesis by blast
    qed
  qed
  moreover have "u1 * v2 - u2 * v1 = 0"
    if "\<exists>a b. (a \<noteq> 0 \<or> b \<noteq> 0) \<and> a * u1 + b * v1 = 0 \<and> a * u2 + b * v2 = 0"
  proof -
    from that obtain a b where ab: "a \<noteq> 0 \<or> b \<noteq> 0"
      and e1: "a * u1 + b * v1 = 0" and e2: "a * u2 + b * v2 = 0"
      by blast
    have "a * (u1 * v2 - u2 * v1) = (a * u1 + b * v1) * v2 - (a * u2 + b * v2) * v1"
      by (simp add: algebra_simps)
    then have A: "a * (u1 * v2 - u2 * v1) = 0"
      by (simp add: e1 e2)
    have "b * (u1 * v2 - u2 * v1) = (a * u1 + b * v1) * (- u2) + (a * u2 + b * v2) * u1"
      by (simp add: algebra_simps)
    then have B: "b * (u1 * v2 - u2 * v1) = 0"
      by (simp add: e1 e2)
    from ab A B show ?thesis by auto
  qed
  ultimately show ?thesis
    unfolding D L by blast
qed

subsection \<open>Which errors can occur\<close>

lemma rem_T_error: "b \<noteq> 0 \<Longrightarrow> rem_T a b = Inl e \<Longrightarrow> e = Overflow"
  by (simp add: rem_T_def split: if_splits)

lemma div_T_error: "b \<noteq> 0 \<Longrightarrow> div_T a b = Inl e \<Longrightarrow> e = Overflow"
  by (simp add: div_T_def split: if_splits)

lemma gcdT_error: "gcdT a b = Inl e \<Longrightarrow> e = Overflow"
proof (induction a b rule: gcdT.induct)
  case (1 a b)
  show ?case
  proof (cases "b = 0")
    case True
    with "1.prems" show ?thesis by simp
  next
    case False
    show ?thesis
    proof (cases "rem_T a b")
      case (Inl e')
      with False "1.prems" have "e' = e"
        by (simp add: gcdT_rec bind_r_def)
      with Inl False show ?thesis
        by (simp add: rem_T_error)
    next
      case (Inr r)
      with False "1.prems" have "gcdT b r = Inl e"
        by (simp add: gcdT_rec bind_r_def)
      with "1.IH" [OF False Inr] show ?thesis .
    qed
  qed
qed

lemma reduce_inplace_error:
  assumes "den f \<noteq> 0" and "reduce_inplace f = Inl e"
  shows "e = Overflow"
proof (cases "gcdT (num f) (den f)")
  case (Inl e')
  with assms(2) have "e' = e"
    by (simp add: reduce_inplace_def bind_r_def)
  with Inl show ?thesis
    by (simp add: gcdT_error)
next
  case (Inr g)
  with assms(1) have g: "g \<noteq> 0"
    by (simp add: gcdT_nonzero)
  from assms(2) Inr have "div_T (num f) g = Inl e \<or> div_T (den f) g = Inl e"
    by (auto simp add: reduce_inplace_def bind_r_def split: sum.splits)
  with g show ?thesis
    by (auto dest: div_T_error)
qed

lemma reduce_error:
  assumes "den f \<noteq> 0" and "reduce f = Inl e"
  shows "e = Overflow"
proof (cases "gcdT (num f) (den f)")
  case (Inl e')
  with assms(2) have "e' = e"
    by (simp add: reduce_def bind_r_def)
  with Inl show ?thesis
    by (simp add: gcdT_error)
next
  case (Inr g)
  with assms(1) have g: "g \<noteq> 0"
    by (simp add: gcdT_nonzero)
  from gcdT_dvd [OF Inr] assms(1) have q: "den f sdiv g \<noteq> 0"
    by (simp add: quotient_nonzero)
  from assms(2) Inr q have "div_T (num f) g = Inl e \<or> div_T (den f) g = Inl e"
    by (auto simp add: reduce_def bind_r_def Fraction_def split: sum.splits if_splits
        dest!: div_T_Inr)
  with g show ?thesis
    by (auto dest: div_T_error)
qed

lemma seg_intersection_error:
  assumes "seg_intersection seg1 seg2 = Inl e"
  shows "e = Overflow"
proof -
  let ?fx = "\<lparr>num = wrap (x_num seg1 seg2), den = wrap (den_det seg1 seg2)\<rparr>"
  let ?fy = "\<lparr>num = wrap (y_num seg1 seg2), den = wrap (den_det seg1 seg2)\<rparr>"
  from assms have d: "wrap (den_det seg1 seg2) \<noteq> 0"
    by (auto simp add: seg_intersection_eq split: if_splits)
  with assms have "reduce_inplace ?fx = Inl e \<or> reduce_inplace ?fy = Inl e"
    by (auto simp add: seg_intersection_eq bind_r_def split: sum.splits)
  with d show ?thesis
    using reduce_inplace_error [of ?fx e] reduce_inplace_error [of ?fy e] by auto
qed

lemma abs_wrap_le: "wrap v \<noteq> INT_MIN \<Longrightarrow> \<bar>wrap v\<bar> \<le> INT_MAX"
  using in_T_wrap [of v] by (auto simp add: in_T_def INT_MIN_def INT_MAX_def)

lemma seg_intersection_total:
  assumes "wrap (x_num seg1 seg2) \<noteq> INT_MIN" and "wrap (y_num seg1 seg2) \<noteq> INT_MIN"
    and "wrap (den_det seg1 seg2) \<noteq> INT_MIN"
  shows "\<exists>r. seg_intersection seg1 seg2 = Inr r"
proof (cases "wrap (den_det seg1 seg2) = 0")
  case True
  then show ?thesis by (simp add: seg_intersection_eq)
next
  case False
  let ?fx = "\<lparr>num = wrap (x_num seg1 seg2), den = wrap (den_det seg1 seg2)\<rparr>"
  let ?fy = "\<lparr>num = wrap (y_num seg1 seg2), den = wrap (den_det seg1 seg2)\<rparr>"
  from False assms obtain rx ry where "reduce_inplace ?fx = Inr rx" "reduce_inplace ?fy = Inr ry"
    using reduce_inplace_total [of ?fx] reduce_inplace_total [of ?fy]
    by (auto simp add: abs_wrap_le)
  with False show ?thesis
    by (simp add: seg_intersection_eq bind_r_Inr)
qed

subsection \<open>Orientation: which sign is which side\<close>

lemma side_range: "\<exists>s. side seg p = Inr s \<and> (s = - 1 \<or> s = 0 \<or> s = 1)"
  by (simp add: side_eq sgnT_cases)

lemma offset_Y_down: "offset_along_normal Y_down seg p = - cross seg p"
  by (simp add: offset_along_normal_def left_normal_def cross_def algebra_simps)

lemma offset_Y_up: "offset_along_normal Y_up seg p = cross seg p"
  by (simp add: offset_along_normal_def left_normal_def cross_def algebra_simps)

text \<open>With the \<open>y\<close> axis pointing upwards the two labels change places.\<close>

lemma side_Y_up:
  assumes "in_T (cross seg p)"
  shows "side seg p = Inr (- 1) \<longleftrightarrow> right_of Y_up seg p"
    and "side seg p = Inr 1 \<longleftrightarrow> left_of Y_up seg p"
  using assms
  by (simp_all add: side_eq wrap_id sgnT_cases left_of_def right_of_def offset_Y_up)

text \<open>
  C8.  For a directed segment from \<open>A\<close> to \<open>B\<close> and a point \<open>P\<close> such that the determinant
  of the matrix with rows \<open>(Ax, Ay, 1)\<close>, \<open>(Bx, By, 1)\<close>, \<open>(Px, Py, 1)\<close> is a value of \<open>T\<close>,
  \<open>side\<close> returns the sign of that determinant, computed as \<open>(0 < v) - (v < 0)\<close>, one of
  \<open>-1\<close>, \<open>0\<close>, \<open>1\<close>; it is \<open>0\<close> exactly when the three points are collinear and, the \<open>y\<close> axis
  pointing downwards, \<open>-1\<close> exactly when \<open>P\<close> is to the left of the directed line and \<open>1\<close>
  exactly when it is to the right.  Without the bound only the sign of the determinant
  modulo \<open>2^32\<close> is returned.
\<close>

theorem side_sign_of_determinant:
  assumes "in_T (det3_exact [x A, y A, 1, x B, y B, 1, x P, y P, 1])"
  shows "side (A, B) P = Inr (sgnT (det3_exact [x A, y A, 1, x B, y B, 1, x P, y P, 1]))
    \<and> sgnT (det3_exact [x A, y A, 1, x B, y B, 1, x P, y P, 1])
        = of_bool (0 < det3_exact [x A, y A, 1, x B, y B, 1, x P, y P, 1])
          - of_bool (det3_exact [x A, y A, 1, x B, y B, 1, x P, y P, 1] < 0)
    \<and> (side (A, B) P = Inr (- 1) \<or> side (A, B) P = Inr 0 \<or> side (A, B) P = Inr 1)
    \<and> (side (A, B) P = Inr (- 1) \<longleftrightarrow> left_of Y_down (A, B) P)
    \<and> (side (A, B) P = Inr 0 \<longleftrightarrow> collinear (A, B) P)
    \<and> (side (A, B) P = Inr 1 \<longleftrightarrow> right_of Y_down (A, B) P)"
proof -
  from assms have c: "in_T (cross (A, B) P)"
    by (simp only: cross_det fst_conv snd_conv)
  have d: "side (A, B) P = Inr (sgnT (det3_exact [x A, y A, 1, x B, y B, 1, x P, y P, 1]))"
    using assms by (simp only: side_det fst_conv snd_conv wrap_id)
  have s: "side (A, B) P = Inr (sgnT (cross (A, B) P))"
    using c by (simp only: side_eq wrap_id)
  have r: "side (A, B) P = Inr (- 1) \<or> side (A, B) P = Inr 0 \<or> side (A, B) P = Inr 1"
    by (simp add: s sgnT_cases)
  have l: "side (A, B) P = Inr (- 1) \<longleftrightarrow> left_of Y_down (A, B) P"
    by (simp add: s sgnT_cases left_of_def offset_Y_down)
  have z: "side (A, B) P = Inr 0 \<longleftrightarrow> collinear (A, B) P"
    by (simp add: s sgnT_cases collinear_def)
  have g: "side (A, B) P = Inr 1 \<longleftrightarrow> right_of Y_down (A, B) P"
    by (simp add: s sgnT_cases right_of_def offset_Y_down)
  from d r l z g show ?thesis
    by (simp add: sgnT_def)
qed

theorem side_sign_of_determinant_witness:
  "in_T (det3_exact [0, 0, 1, 4, 0, 1, 1, - 3, 1])
   \<and> side (\<lparr>x = 0, y = 0\<rparr>, \<lparr>x = 4, y = 0\<rparr>) \<lparr>x = 1, y = - 3\<rparr> = Inr (- 1)
   \<and> left_of Y_down (\<lparr>x = 0, y = 0\<rparr>, \<lparr>x = 4, y = 0\<rparr>) \<lparr>x = 1, y = - 3\<rparr>"
proof -
  have h: "in_T (det3_exact [x \<lparr>x = 0, y = 0\<rparr>, y \<lparr>x = 0, y = 0\<rparr>, 1,
                             x \<lparr>x = 4, y = 0\<rparr>, y \<lparr>x = 4, y = 0\<rparr>, 1,
                             x \<lparr>x = 1, y = - 3\<rparr>, y \<lparr>x = 1, y = - 3\<rparr>, 1 :: int])"
    by (simp add: in_T_def INT_MIN_def INT_MAX_def)
  from side_sign_of_determinant [OF h] h show ?thesis
    by (auto simp add: sgnT_def)
qed

theorem side_sign_lost_on_overflow:
  "side (\<lparr>x = 0, y = 0\<rparr>, \<lparr>x = 50000, y = 0\<rparr>) \<lparr>x = 0, y = 50000\<rparr> = Inr (- 1)
   \<and> sgnT (det3_exact [0, 0, 1, 50000, 0, 1, 0, 50000, 1]) = 1
   \<and> right_of Y_down (\<lparr>x = 0, y = 0\<rparr>, \<lparr>x = 50000, y = 0\<rparr>) \<lparr>x = 0, y = 50000\<rparr>"
  by (simp add: side_eq cross_def wrap_def sgnT_def right_of_def offset_Y_down)

subsection \<open>Containment and the chained comparison\<close>

text \<open>
  C1.  \<open>seg_contains\<close> is to hold exactly when \<open>side\<close> is \<open>0\<close> and the point lies in the closed
  bounding box of the segment, each axis being tested from both sides.  The chained
  comparison of the header never tests the upper bound (\<open>seg_contains_eq\<close>): on the segment
  from \<open>(0,0)\<close> to \<open>(2,2)\<close> the point \<open>(3,3)\<close> has \<open>side\<close> \<open>0\<close>, lies outside the box, and is
  accepted.
\<close>

theorem seg_contains_accepts_outside_box:
  "seg_contains (\<lparr>x = 0, y = 0\<rparr>, \<lparr>x = 2, y = 2\<rparr>) \<lparr>x = 3, y = 3\<rparr> = Inr True
   \<and> side (\<lparr>x = 0, y = 0\<rparr>, \<lparr>x = 2, y = 2\<rparr>) \<lparr>x = 3, y = 3\<rparr> = Inr 0
   \<and> \<not> in_box (\<lparr>x = 0, y = 0\<rparr>, \<lparr>x = 2, y = 2\<rparr>) \<lparr>x = 3, y = 3\<rparr>"
  by (simp add: seg_contains_eq side_eq cross_def wrap_def sgnT_def in_box_def)

text \<open>
  C3.  \<open>seg_contains\<close> is to accept both end points of every segment and to reject every
  point strictly outside the bounding box.  With the chained comparison an axis passes
  only if the larger coordinate of the segment on it is at least 1, or the point is below
  the smaller one and the larger one is at least 0: both end points of the segment from
  \<open>(-1,-1)\<close> to \<open>(0,0)\<close> are rejected, and the point \<open>(7,7)\<close>, outside the box of the segment
  from \<open>(1,1)\<close> to \<open>(5,5)\<close>, is accepted.
\<close>

theorem seg_contains_rejects_end_points:
  "seg_contains (\<lparr>x = - 1, y = - 1\<rparr>, \<lparr>x = 0, y = 0\<rparr>) \<lparr>x = - 1, y = - 1\<rparr> = Inr False
   \<and> seg_contains (\<lparr>x = - 1, y = - 1\<rparr>, \<lparr>x = 0, y = 0\<rparr>) \<lparr>x = 0, y = 0\<rparr> = Inr False
   \<and> seg_contains (\<lparr>x = 1, y = 1\<rparr>, \<lparr>x = 5, y = 5\<rparr>) \<lparr>x = 7, y = 7\<rparr> = Inr True
   \<and> \<not> in_box (\<lparr>x = 1, y = 1\<rparr>, \<lparr>x = 5, y = 5\<rparr>) \<lparr>x = 7, y = 7\<rparr>"
  by (simp add: seg_contains_eq side_eq cross_def wrap_def sgnT_def in_box_def)

text \<open>
  C2.  \<open>seg_intersects\<close> is to hold exactly when the two segments cross properly or an end
  point of one lies on the other, collinear with it and inside its bounding box.  Through
  \<open>seg_contains\<close> it differs from that in both directions: the collinear and disjoint
  segments \<open>(0,0)-(2,2)\<close> and \<open>(3,3)-(4,4)\<close> are reported as intersecting, and the collinear
  and overlapping segments \<open>(-3,0)-(-1,0)\<close> and \<open>(-2,0)-(0,0)\<close> as not intersecting.
\<close>

theorem seg_intersects_differs_from_geometry:
  "seg_intersects (\<lparr>x = 0, y = 0\<rparr>, \<lparr>x = 2, y = 2\<rparr>) (\<lparr>x = 3, y = 3\<rparr>, \<lparr>x = 4, y = 4\<rparr>) = Inr True
   \<and> \<not> seg_intersects_spec (\<lparr>x = 0, y = 0\<rparr>, \<lparr>x = 2, y = 2\<rparr>) (\<lparr>x = 3, y = 3\<rparr>, \<lparr>x = 4, y = 4\<rparr>)
   \<and> seg_intersects (\<lparr>x = - 3, y = 0\<rparr>, \<lparr>x = - 1, y = 0\<rparr>) (\<lparr>x = - 2, y = 0\<rparr>, \<lparr>x = 0, y = 0\<rparr>) = Inr False
   \<and> seg_intersects_spec (\<lparr>x = - 3, y = 0\<rparr>, \<lparr>x = - 1, y = 0\<rparr>) (\<lparr>x = - 2, y = 0\<rparr>, \<lparr>x = 0, y = 0\<rparr>)"
  by (simp add: seg_intersects_eq seg_contains_eq cross_def wrap_def sgnT_def
      seg_intersects_spec_def opposite_sides_def on_segment_def collinear_def in_box_def)

subsection \<open>Fractions\<close>

text \<open>
  C6.  Constructing \<open>Fraction(n, d)\<close> fails, with the domain error, exactly when \<open>d\<close> is \<open>0\<close>;
  otherwise it succeeds and the two fields hold \<open>n\<close> and \<open>d\<close> as given, neither reduced nor
  with the sign moved.
\<close>

theorem Fraction_fails_iff_zero_denominator:
  "(Fraction n d = Inl DomainError \<longleftrightarrow> d = 0)
   \<and> ((\<exists>e. Fraction n d = Inl e) \<longleftrightarrow> d = 0)
   \<and> (d \<noteq> 0 \<longrightarrow> Fraction n d = Inr \<lparr>num = n, den = d\<rparr>)"
  by (simp add: Fraction_def)

theorem Fraction_fails_iff_zero_denominator_witness:
  "(- 4 :: int) \<noteq> 0 \<and> Fraction 6 (- 4) = Inr \<lparr>num = 6, den = - 4\<rparr>
   \<and> Fraction 6 0 = Inl DomainError"
  using Fraction_fails_iff_zero_denominator [of 6 "- 4"]
    Fraction_fails_iff_zero_denominator [of 6 0]
  by simp

lemma gcdT_zero_left: "d \<noteq> 0 \<Longrightarrow> gcdT 0 d = Inr d"
  by (simp add: gcdT_rec rem_T_def INT_MIN_def bind_r_Inr)

text \<open>
  C10.  For every nonzero \<open>d\<close>, of either sign, \<open>gcd(0, d)\<close> is \<open>d\<close> itself, and reducing
  \<open>Fraction(0, d)\<close> gives exactly \<open>0/1\<close> in both forms of \<open>reduce\<close>.
\<close>

theorem reduce_zero_numerator:
  assumes "d \<noteq> 0"
  shows "gcdT 0 d = Inr d
    \<and> bind_r (Fraction 0 d) reduce = Inr \<lparr>num = 0, den = 1\<rparr>
    \<and> bind_r (Fraction 0 d) reduce_inplace = Inr \<lparr>num = 0, den = 1\<rparr>"
proof -
  have z: "div_T 0 d = Inr 0"
    using assms by (simp add: div_T_def INT_MIN_def)
  have o: "div_T d d = Inr 1"
    using assms by (auto simp add: div_T_def INT_MIN_def sdiv_self)
  from assms z o show ?thesis
    by (simp add: Fraction_def bind_r_Inr reduce_def reduce_inplace_def gcdT_zero_left)
qed

theorem reduce_zero_numerator_witness:
  "(- 7 :: int) \<noteq> 0 \<and> gcdT 0 (- 7) = Inr (- 7)
    \<and> bind_r (Fraction 0 (- 7)) reduce = Inr \<lparr>num = 0, den = 1\<rparr>
    \<and> bind_r (Fraction 0 (- 7)) reduce_inplace = Inr \<lparr>num = 0, den = 1\<rparr>"
  using reduce_zero_numerator [of "- 7"] by simp

lemma gcdT_6_m4: "gcdT 6 (- 4) = Inr 2"
  by (simp add: gcdT_rec rem_T_def INT_MIN_def bind_r_Inr smod_int_alt_def)

lemma gcdT_INT_MIN_m3: "gcdT (- 2147483648) (- 3) = Inr (- 1)"
  by (simp add: gcdT_rec rem_T_def INT_MIN_def bind_r_Inr smod_int_alt_def)

text \<open>
  C7.  For nonzero \<open>n\<close> and \<open>d\<close> that are values of \<open>T\<close> other than \<open>INT_MIN\<close>, reducing
  \<open>Fraction(n, d)\<close>, in either form of \<open>reduce\<close>, succeeds with a fraction \<open>num/den\<close> such
  that \<open>num * d = n * den\<close> and such that the greatest common divisor of \<open>num\<close> and \<open>den\<close>
  is 1 in absolute value, both as the header's \<open>gcd\<close> computes it and as the greatest
  common divisor of the integers.  With \<open>INT_MIN\<close> the reduction can end in the
  overflowing division: \<open>gcd(INT_MIN, -1)\<close> computes \<open>INT_MIN % -1\<close>, and reducing
  \<open>INT_MIN/-3\<close> computes \<open>INT_MIN / -1\<close>.
\<close>

theorem reduce_lowest_terms:
  assumes "n \<noteq> 0" and "d \<noteq> 0" and "\<bar>n\<bar> \<le> INT_MAX" and "\<bar>d\<bar> \<le> INT_MAX"
  shows "\<exists>f. bind_r (Fraction n d) reduce = Inr f
           \<and> bind_r (Fraction n d) reduce_inplace = Inr f
           \<and> num f * d = n * den f
           \<and> (\<exists>g. gcdT (num f) (den f) = Inr g \<and> \<bar>g\<bar> = 1)
           \<and> coprime (num f) (den f)"
proof -
  let ?f = "\<lparr>num = n, den = d\<rparr>"
  from reduce_total [of ?f] assms obtain g where g: "gcdT n d = Inr g"
    and r: "reduce ?f = Inr \<lparr>num = n sdiv g, den = d sdiv g\<rparr>"
    by auto
  from reduce_inplace_total [of ?f] assms g
  have i: "reduce_inplace ?f = Inr \<lparr>num = n sdiv g, den = d sdiv g\<rparr>"
    by auto
  from reduced_props [OF g assms(2,3,4)] r i assms(2) show ?thesis
    by (simp add: Fraction_def bind_r_Inr)
qed

theorem reduce_lowest_terms_witness:
  "(6::int) \<noteq> 0 \<and> (- 4 :: int) \<noteq> 0 \<and> \<bar>6\<bar> \<le> INT_MAX \<and> \<bar>- 4\<bar> \<le> INT_MAX
   \<and> bind_r (Fraction 6 (- 4)) reduce = Inr \<lparr>num = 3, den = - 2\<rparr>
   \<and> (\<exists>f. bind_r (Fraction 6 (- 4)) reduce = Inr f \<and> num f * (- 4) = 6 * den f
          \<and> coprime (num f) (den f))"
proof -
  have h: "\<bar>6\<bar> \<le> INT_MAX" "\<bar>- 4\<bar> \<le> INT_MAX"
    by (simp_all add: INT_MAX_def)
  have e: "bind_r (Fraction 6 (- 4)) reduce = Inr \<lparr>num = 3, den = - 2\<rparr>"
    by (simp add: Fraction_def bind_r_Inr reduce_def gcdT_6_m4 div_T_def INT_MIN_def
        signed_divide_int_def)
  from reduce_lowest_terms [of 6 "- 4"] h e show ?thesis
    by auto
qed

theorem reduce_traps_on_INT_MIN:
  "bind_r (Fraction (- 2147483648) (- 1)) reduce = Inl Overflow
   \<and> bind_r (Fraction (- 2147483648) (- 1)) reduce_inplace = Inl Overflow
   \<and> bind_r (Fraction (- 2147483648) (- 3)) reduce = Inl Overflow
   \<and> bind_r (Fraction (- 2147483648) (- 3)) reduce_inplace = Inl Overflow
   \<and> in_T (- 2147483648)"
  by (simp add: Fraction_def bind_r_Inr bind_r_Inl reduce_def reduce_inplace_def
      gcdT_INT_MIN_m3 gcdT_rec rem_T_def div_T_def INT_MIN_def INT_MAX_def in_T_def)

subsection \<open>Parallel lines\<close>

text \<open>
  C5.  \<open>seg_intersection\<close> returns the absent result exactly when \<open>den_det\<close>, computed in
  \<open>T\<close>, is \<open>0\<close>, that is, exactly when \<open>den_det\<close> is a multiple of \<open>2^32\<close>.  When \<open>den_det\<close> is
  a value of \<open>T\<close> this is exactly when it is \<open>0\<close>, and \<open>den_det\<close> is \<open>0\<close> exactly when the
  direction vectors of the two segments are linearly dependent.  Two segments on one and
  the same line get no other treatment: \<open>(0,0)-(1,1)\<close> and \<open>(2,2)-(3,3)\<close> give the absent
  result as well.
\<close>

theorem seg_intersection_absent_iff_parallel:
  "(seg_intersection seg1 seg2 = Inr None \<longleftrightarrow> wrap (den_det seg1 seg2) = 0)
   \<and> (wrap (den_det seg1 seg2) = 0 \<longleftrightarrow> 4294967296 dvd den_det seg1 seg2)
   \<and> (in_T (den_det seg1 seg2) \<longrightarrow>
        (seg_intersection seg1 seg2 = Inr None \<longleftrightarrow> den_det seg1 seg2 = 0))
   \<and> (den_det seg1 seg2 = 0 \<longleftrightarrow> lin_dep (direction seg1) (direction seg2))
   \<and> seg_intersection (\<lparr>x = 0, y = 0\<rparr>, \<lparr>x = 1, y = 1\<rparr>) (\<lparr>x = 2, y = 2\<rparr>, \<lparr>x = 3, y = 3\<rparr>) = Inr None"
proof -
  have "seg_intersection (\<lparr>x = 0, y = 0\<rparr>, \<lparr>x = 1, y = 1\<rparr>) (\<lparr>x = 2, y = 2\<rparr>, \<lparr>x = 3, y = 3\<rparr>) = Inr None"
    by (simp add: seg_intersection_None den_det_def wrap_def)
  moreover have "in_T (den_det seg1 seg2) \<longrightarrow>
        (seg_intersection seg1 seg2 = Inr None \<longleftrightarrow> den_det seg1 seg2 = 0)"
    by (simp add: seg_intersection_None wrap_id)
  ultimately show ?thesis
    by (simp add: seg_intersection_None wrap_zero_iff den_det_lin_dep)
qed

theorem seg_intersection_absent_iff_parallel_witness:
  "in_T (den_det (\<lparr>x = 0, y = 0\<rparr>, \<lparr>x = 1, y = 0\<rparr>) (\<lparr>x = 0, y = 1\<rparr>, \<lparr>x = 1, y = 1\<rparr>))
   \<and> seg_intersection (\<lparr>x = 0, y = 0\<rparr>, \<lparr>x = 1, y = 0\<rparr>) (\<lparr>x = 0, y = 1\<rparr>, \<lparr>x = 1, y = 1\<rparr>) = Inr None
   \<and> den_det (\<lparr>x = 0, y = 0\<rparr>, \<lparr>x = 1, y = 0\<rparr>) (\<lparr>x = 0, y = 1\<rparr>, \<lparr>x = 1, y = 1\<rparr>) = 0
   \<and> lin_dep (direction (\<lparr>x = 0, y = 0\<rparr>, \<lparr>x = 1, y = 0\<rparr>)) (direction (\<lparr>x = 0, y = 1\<rparr>, \<lparr>x = 1, y = 1\<rparr>))"
proof -
  have "den_det (\<lparr>x = 0, y = 0\<rparr>, \<lparr>x = 1, y = 0\<rparr>) (\<lparr>x = 0, y = 1\<rparr>, \<lparr>x = 1, y = 1\<rparr>) = 0"
    by (simp add: den_det_def)
  with seg_intersection_absent_iff_parallel
    [of "(\<lparr>x = 0, y = 0\<rparr>, \<lparr>x = 1, y = 0\<rparr>)" "(\<lparr>x = 0, y = 1\<rparr>, \<lparr>x = 1, y = 1\<rparr>)"]
  show ?thesis by (simp add: in_T_def INT_MIN_def INT_MAX_def)
qed

theorem seg_intersection_absent_for_perpendicular:
  "seg_intersection (\<lparr>x = 0, y = 0\<rparr>, \<lparr>x = 65536, y = 0\<rparr>) (\<lparr>x = 0, y = 0\<rparr>, \<lparr>x = 0, y = 65536\<rparr>)
     = Inr None
   \<and> den_det (\<lparr>x = 0, y = 0\<rparr>, \<lparr>x = 65536, y = 0\<rparr>) (\<lparr>x = 0, y = 0\<rparr>, \<lparr>x = 0, y = 65536\<rparr>)
     = 4294967296
   \<and> \<not> lin_dep (direction (\<lparr>x = 0, y = 0\<rparr>, \<lparr>x = 65536, y = 0\<rparr>))
               (direction (\<lparr>x = 0, y = 0\<rparr>, \<lparr>x = 0, y = 65536\<rparr>))"
proof -
  have d: "den_det (\<lparr>x = 0, y = 0\<rparr>, \<lparr>x = 65536, y = 0\<rparr>) (\<lparr>x = 0, y = 0\<rparr>, \<lparr>x = 0, y = 65536\<rparr>)
      = 4294967296"
    by (simp add: den_det_def)
  then have "\<not> lin_dep (direction (\<lparr>x = 0, y = 0\<rparr>, \<lparr>x = 65536, y = 0\<rparr>))
               (direction (\<lparr>x = 0, y = 0\<rparr>, \<lparr>x = 0, y = 65536\<rparr>))"
    by (simp flip: den_det_lin_dep)
  with d show ?thesis
    by (simp add: seg_intersection_None wrap_def)
qed

subsection \<open>The intersection point is the intersection of the lines\<close>

lemma gcdT_overflow_example: "gcdT 589934592 (- 8000000) = Inr 512"
  by (simp add: gcdT_rec rem_T_def INT_MIN_def bind_r_Inr smod_int_alt_def)

lemma gcdT_m8_m8: "gcdT (- 8) (- 8) = Inr (- 8)"
  by (simp add: gcdT_rec rem_T_def INT_MIN_def bind_r_Inr smod_int_alt_def)

lemma seg_intersection_example:
  "seg_intersection (\<lparr>x = 0, y = 0\<rparr>, \<lparr>x = 2, y = 2\<rparr>) (\<lparr>x = 0, y = 2\<rparr>, \<lparr>x = 2, y = 0\<rparr>)
     = Inr (Some \<lparr>x = \<lparr>num = 1, den = 1\<rparr>, y = \<lparr>num = 1, den = 1\<rparr>\<rparr>)"
  by (simp add: seg_intersection_eq den_det_def x_num_def y_num_def wrap_def
      reduce_inplace_def gcdT_m8_m8 bind_r_Inr div_T_def INT_MIN_def signed_divide_int_def)

text \<open>
  C4.  When \<open>den_det\<close> is not \<open>0\<close> and the three determinants \<open>den_det\<close>, \<open>x_num\<close> and \<open>y_num\<close>
  are values of \<open>T\<close> other than \<open>INT_MIN\<close>, \<open>seg_intersection\<close> returns a point whose two
  fractions have nonzero denominators and, read as rational numbers, are the coordinates
  of a point on the line through \<open>seg1\<close> and on the line through \<open>seg2\<close>; every point on
  both lines is that point; and each fraction is in lowest terms.  On \<open>(0,0)-(2,2)\<close> and
  \<open>(0,2)-(2,0)\<close> the result is exactly \<open>(1/1, 1/1)\<close>.
\<close>

theorem seg_intersection_point:
  "(den_det seg1 seg2 \<noteq> 0 \<and> \<bar>den_det seg1 seg2\<bar> \<le> INT_MAX
      \<and> \<bar>x_num seg1 seg2\<bar> \<le> INT_MAX \<and> \<bar>y_num seg1 seg2\<bar> \<le> INT_MAX \<longrightarrow>
      (\<exists>fx fy. seg_intersection seg1 seg2 = Inr (Some \<lparr>x = fx, y = fy\<rparr>)
         \<and> den fx \<noteq> 0 \<and> den fy \<noteq> 0
         \<and> on_line seg1 (frac_val fx, frac_val fy)
         \<and> on_line seg2 (frac_val fx, frac_val fy)
         \<and> (\<forall>P. on_line seg1 P \<and> on_line seg2 P \<longrightarrow> P = (frac_val fx, frac_val fy))
         \<and> coprime (num fx) (den fx) \<and> coprime (num fy) (den fy)
         \<and> (\<exists>g. gcdT (num fx) (den fx) = Inr g \<and> \<bar>g\<bar> = 1)
         \<and> (\<exists>g. gcdT (num fy) (den fy) = Inr g \<and> \<bar>g\<bar> = 1)))
   \<and> seg_intersection (\<lparr>x = 0, y = 0\<rparr>, \<lparr>x = 2, y = 2\<rparr>) (\<lparr>x = 0, y = 2\<rparr>, \<lparr>x = 2, y = 0\<rparr>)
       = Inr (Some \<lparr>x = \<lparr>num = 1, den = 1\<rparr>, y = \<lparr>num = 1, den = 1\<rparr>\<rparr>)"
proof (intro conjI impI)
  assume h: "den_det seg1 seg2 \<noteq> 0 \<and> \<bar>den_det seg1 seg2\<bar> \<le> INT_MAX
      \<and> \<bar>x_num seg1 seg2\<bar> \<le> INT_MAX \<and> \<bar>y_num seg1 seg2\<bar> \<le> INT_MAX"
  then have dd: "den_det seg1 seg2 \<noteq> 0" and bd: "\<bar>den_det seg1 seg2\<bar> \<le> INT_MAX"
    and bx: "\<bar>x_num seg1 seg2\<bar> \<le> INT_MAX" and by': "\<bar>y_num seg1 seg2\<bar> \<le> INT_MAX"
    by simp_all
  have w: "wrap (den_det seg1 seg2) = den_det seg1 seg2"
    "wrap (x_num seg1 seg2) = x_num seg1 seg2" "wrap (y_num seg1 seg2) = y_num seg1 seg2"
    using bd bx by' by (auto intro!: wrap_id simp add: in_T_def INT_MIN_def INT_MAX_def)
  let ?fx0 = "\<lparr>num = x_num seg1 seg2, den = den_det seg1 seg2\<rparr>"
  let ?fy0 = "\<lparr>num = y_num seg1 seg2, den = den_det seg1 seg2\<rparr>"
  from reduce_inplace_total [of ?fx0] dd bd bx
  obtain gx where gx: "gcdT (x_num seg1 seg2) (den_det seg1 seg2) = Inr gx"
    and rx: "reduce_inplace ?fx0
       = Inr \<lparr>num = x_num seg1 seg2 sdiv gx, den = den_det seg1 seg2 sdiv gx\<rparr>"
    by auto
  from reduce_inplace_total [of ?fy0] dd bd by'
  obtain gy where gy: "gcdT (y_num seg1 seg2) (den_det seg1 seg2) = Inr gy"
    and ry: "reduce_inplace ?fy0
       = Inr \<lparr>num = y_num seg1 seg2 sdiv gy, den = den_det seg1 seg2 sdiv gy\<rparr>"
    by auto
  let ?fx = "\<lparr>num = x_num seg1 seg2 sdiv gx, den = den_det seg1 seg2 sdiv gx\<rparr>"
  let ?fy = "\<lparr>num = y_num seg1 seg2 sdiv gy, den = den_det seg1 seg2 sdiv gy\<rparr>"
  let ?P = "(frac_val ?fx, frac_val ?fy)"
  note px = reduced_props [OF gx dd bx bd]
  note py = reduced_props [OF gy dd by' bd]
  have r: "seg_intersection seg1 seg2 = Inr (Some \<lparr>x = ?fx, y = ?fy\<rparr>)"
    using dd by (simp add: seg_intersection_eq w rx ry bind_r_Inr)
  have v: "?P = (of_int (x_num seg1 seg2) / of_int (den_det seg1 seg2),
                 of_int (y_num seg1 seg2) / of_int (den_det seg1 seg2))"
    by (simp only: px(4) py(4))
  have l1: "on_line seg1 ?P" and l2: "on_line seg2 ?P"
    unfolding v using dd by (rule on_line_computed1, rule on_line_computed2)
  have u: "\<forall>P. on_line seg1 P \<and> on_line seg2 P \<longrightarrow> P = ?P"
    using on_line_unique [OF dd _ _ l1 l2] by blast
  have n: "den ?fx \<noteq> 0" "den ?fy \<noteq> 0"
    using px(1) py(1) by simp_all
  have c: "coprime (num ?fx) (den ?fx)" "coprime (num ?fy) (den ?fy)"
    using px(3) py(3) by simp_all
  have g: "\<exists>g. gcdT (num ?fx) (den ?fx) = Inr g \<and> \<bar>g\<bar> = 1"
    "\<exists>g. gcdT (num ?fy) (den ?fy) = Inr g \<and> \<bar>g\<bar> = 1"
    using px(5) py(5) by simp_all
  from r n l1 l2 u c g
  show "\<exists>fx fy. seg_intersection seg1 seg2 = Inr (Some \<lparr>x = fx, y = fy\<rparr>)
         \<and> den fx \<noteq> 0 \<and> den fy \<noteq> 0
         \<and> on_line seg1 (frac_val fx, frac_val fy)
         \<and> on_line seg2 (frac_val fx, frac_val fy)
         \<and> (\<forall>P. on_line seg1 P \<and> on_line seg2 P \<longrightarrow> P = (frac_val fx, frac_val fy))
         \<and> coprime (num fx) (den fx) \<and> coprime (num fy) (den fy)
         \<and> (\<exists>g. gcdT (num fx) (den fx) = Inr g \<and> \<bar>g\<bar> = 1)
         \<and> (\<exists>g. gcdT (num fy) (den fy) = Inr g \<and> \<bar>g\<bar> = 1)"
    by blast
next
  show "seg_intersection (\<lparr>x = 0, y = 0\<rparr>, \<lparr>x = 2, y = 2\<rparr>) (\<lparr>x = 0, y = 2\<rparr>, \<lparr>x = 2, y = 0\<rparr>)
       = Inr (Some \<lparr>x = \<lparr>num = 1, den = 1\<rparr>, y = \<lparr>num = 1, den = 1\<rparr>\<rparr>)"
    by (rule seg_intersection_example)
qed

theorem seg_intersection_point_witness:
  "den_det (\<lparr>x = 0, y = 0\<rparr>, \<lparr>x = 2, y = 2\<rparr>) (\<lparr>x = 0, y = 2\<rparr>, \<lparr>x = 2, y = 0\<rparr>) \<noteq> 0
   \<and> \<bar>den_det (\<lparr>x = 0, y = 0\<rparr>, \<lparr>x = 2, y = 2\<rparr>) (\<lparr>x = 0, y = 2\<rparr>, \<lparr>x = 2, y = 0\<rparr>)\<bar> \<le> INT_MAX
   \<and> \<bar>x_num (\<lparr>x = 0, y = 0\<rparr>, \<lparr>x = 2, y = 2\<rparr>) (\<lparr>x = 0, y = 2\<rparr>, \<lparr>x = 2, y = 0\<rparr>)\<bar> \<le> INT_MAX
   \<and> \<bar>y_num (\<lparr>x = 0, y = 0\<rparr>, \<lparr>x = 2, y = 2\<rparr>) (\<lparr>x = 0, y = 2\<rparr>, \<lparr>x = 2, y = 0\<rparr>)\<bar> \<le> INT_MAX
   \<and> seg_intersection (\<lparr>x = 0, y = 0\<rparr>, \<lparr>x = 2, y = 2\<rparr>) (\<lparr>x = 0, y = 2\<rparr>, \<lparr>x = 2, y = 0\<rparr>)
       = Inr (Some \<lparr>x = \<lparr>num = 1, den = 1\<rparr>, y = \<lparr>num = 1, den = 1\<rparr>\<rparr>)
   \<and> on_line (\<lparr>x = 0, y = 0\<rparr>, \<lparr>x = 2, y = 2\<rparr>) (1, 1)
   \<and> on_line (\<lparr>x = 0, y = 2\<rparr>, \<lparr>x = 2, y = 0\<rparr>) (1, 1)
   \<and> \<not> (\<exists>P. on_line (\<lparr>x = 0, y = 0\<rparr>, \<lparr>x = 2, y = 2\<rparr>) P \<and> on_line (\<lparr>x = 0, y = 2\<rparr>, \<lparr>x = 2, y = 0\<rparr>) P
            \<and> P \<noteq> (1, 1))"
proof -
  have h: "den_det (\<lparr>x = 0, y = 0\<rparr>, \<lparr>x = 2, y = 2\<rparr>) (\<lparr>x = 0, y = 2\<rparr>, \<lparr>x = 2, y = 0\<rparr>) \<noteq> 0
   \<and> \<bar>den_det (\<lparr>x = 0, y = 0\<rparr>, \<lparr>x = 2, y = 2\<rparr>) (\<lparr>x = 0, y = 2\<rparr>, \<lparr>x = 2, y = 0\<rparr>)\<bar> \<le> INT_MAX
   \<and> \<bar>x_num (\<lparr>x = 0, y = 0\<rparr>, \<lparr>x = 2, y = 2\<rparr>) (\<lparr>x = 0, y = 2\<rparr>, \<lparr>x = 2, y = 0\<rparr>)\<bar> \<le> INT_MAX
   \<and> \<bar>y_num (\<lparr>x = 0, y = 0\<rparr>, \<lparr>x = 2, y = 2\<rparr>) (\<lparr>x = 0, y = 2\<rparr>, \<lparr>x = 2, y = 0\<rparr>)\<bar> \<le> INT_MAX"
    by (simp add: den_det_def x_num_def y_num_def INT_MAX_def)
  from seg_intersection_point
    [of "(\<lparr>x = 0, y = 0\<rparr>, \<lparr>x = 2, y = 2\<rparr>)" "(\<lparr>x = 0, y = 2\<rparr>, \<lparr>x = 2, y = 0\<rparr>)"] h
  show ?thesis
    by (auto simp add: frac_val_def)
qed

theorem seg_intersection_off_the_lines:
  "den_det (\<lparr>x = 0, y = 0\<rparr>, \<lparr>x = 2000, y = 2000\<rparr>) (\<lparr>x = 0, y = 2000\<rparr>, \<lparr>x = 2000, y = 0\<rparr>)
     = - 8000000
   \<and> seg_intersection (\<lparr>x = 0, y = 0\<rparr>, \<lparr>x = 2000, y = 2000\<rparr>)
        (\<lparr>x = 0, y = 2000\<rparr>, \<lparr>x = 2000, y = 0\<rparr>)
     = Inr (Some \<lparr>x = \<lparr>num = 1152216, den = - 15625\<rparr>, y = \<lparr>num = 1152216, den = - 15625\<rparr>\<rparr>)
   \<and> \<not> on_line (\<lparr>x = 0, y = 2000\<rparr>, \<lparr>x = 2000, y = 0\<rparr>)
          (frac_val \<lparr>num = 1152216, den = - 15625\<rparr>, frac_val \<lparr>num = 1152216, den = - 15625\<rparr>)
   \<and> on_line (\<lparr>x = 0, y = 0\<rparr>, \<lparr>x = 2000, y = 2000\<rparr>) (1000, 1000)
   \<and> on_line (\<lparr>x = 0, y = 2000\<rparr>, \<lparr>x = 2000, y = 0\<rparr>) (1000, 1000)"
proof -
  have "seg_intersection (\<lparr>x = 0, y = 0\<rparr>, \<lparr>x = 2000, y = 2000\<rparr>)
        (\<lparr>x = 0, y = 2000\<rparr>, \<lparr>x = 2000, y = 0\<rparr>)
     = Inr (Some \<lparr>x = \<lparr>num = 1152216, den = - 15625\<rparr>, y = \<lparr>num = 1152216, den = - 15625\<rparr>\<rparr>)"
    by (simp add: seg_intersection_eq den_det_def x_num_def y_num_def wrap_def
        reduce_inplace_def gcdT_overflow_example bind_r_Inr div_T_def INT_MIN_def
        signed_divide_int_def)
  then show ?thesis
    by (simp add: den_det_def on_line_def frac_val_def)
qed

subsection \<open>Which calls can end in an error\<close>

lemma seg_intersects_total: "\<exists>b. seg_intersects seg1 seg2 = Inr b"
  by (simp add: seg_intersects_eq)

text \<open>
  C9.  None of \<open>side\<close>, \<open>same_side\<close>, \<open>seg_contains\<close> and \<open>seg_intersects\<close> ends in an error,
  whatever the segments and points.  \<open>seg_intersection\<close> never fails an assertion, never
  throws the domain error and never divides by zero: past the \<open>den_det\<close> guard both
  \<open>Fraction\<close> constructions succeed, and neither form of \<open>reduce\<close> divides by zero on a
  fraction with a nonzero denominator, because the \<open>gcd\<close> of its fields is not zero.  The
  one error left is the overflowing division on \<open>INT_MIN\<close>: \<open>seg_intersection\<close> returns
  whenever none of its three determinants, computed in \<open>T\<close>, is \<open>INT_MIN\<close>, and both forms of
  \<open>reduce\<close> return whenever neither field is.  That the loop of \<open>gcd\<close> ends is the
  termination proof of \<open>gcdT\<close>.
\<close>

theorem predicates_total:
  "(\<exists>s. side seg p = Inr s)
   \<and> (\<exists>b. same_side seg p q = Inr b)
   \<and> (\<exists>b. seg_contains seg p = Inr b)
   \<and> (\<exists>b. seg_intersects seg1 seg2 = Inr b)
   \<and> (\<forall>e. seg_intersection seg1 seg2 = Inl e \<longrightarrow> e = Overflow)
   \<and> (wrap (den_det seg1 seg2) \<noteq> 0 \<longrightarrow>
        (\<exists>fx fy. Fraction (wrap (x_num seg1 seg2)) (wrap (den_det seg1 seg2)) = Inr fx
                \<and> Fraction (wrap (y_num seg1 seg2)) (wrap (den_det seg1 seg2)) = Inr fy))
   \<and> (wrap (x_num seg1 seg2) \<noteq> INT_MIN \<and> wrap (y_num seg1 seg2) \<noteq> INT_MIN
        \<and> wrap (den_det seg1 seg2) \<noteq> INT_MIN \<longrightarrow>
        (\<exists>r. seg_intersection seg1 seg2 = Inr r))
   \<and> (den f \<noteq> 0 \<longrightarrow>
        (\<forall>g. gcdT (num f) (den f) = Inr g \<longrightarrow> g \<noteq> 0)
        \<and> (\<forall>e. reduce f = Inl e \<longrightarrow> e = Overflow)
        \<and> (\<forall>e. reduce_inplace f = Inl e \<longrightarrow> e = Overflow)
        \<and> (\<bar>num f\<bar> \<le> INT_MAX \<and> \<bar>den f\<bar> \<le> INT_MAX \<longrightarrow>
             (\<exists>g. gcdT (num f) (den f) = Inr g)
             \<and> (\<exists>r. reduce f = Inr r) \<and> (\<exists>r. reduce_inplace f = Inr r)))"
proof -
  have s: "\<exists>s. side seg p = Inr s"
    by (simp add: side_eq)
  have ss: "\<exists>b. same_side seg p q = Inr b"
    by (simp add: same_side_eq)
  have c: "\<exists>b. seg_contains seg p = Inr b"
    by (simp add: seg_contains_eq)
  have i: "\<exists>b. seg_intersects seg1 seg2 = Inr b"
    by (rule seg_intersects_total)
  have e: "\<forall>e. seg_intersection seg1 seg2 = Inl e \<longrightarrow> e = Overflow"
    by (blast dest: seg_intersection_error)
  have fr: "wrap (den_det seg1 seg2) \<noteq> 0 \<longrightarrow>
        (\<exists>fx fy. Fraction (wrap (x_num seg1 seg2)) (wrap (den_det seg1 seg2)) = Inr fx
                \<and> Fraction (wrap (y_num seg1 seg2)) (wrap (den_det seg1 seg2)) = Inr fy)"
    by (simp add: Fraction_def)
  have t: "wrap (x_num seg1 seg2) \<noteq> INT_MIN \<and> wrap (y_num seg1 seg2) \<noteq> INT_MIN
        \<and> wrap (den_det seg1 seg2) \<noteq> INT_MIN \<longrightarrow>
        (\<exists>r. seg_intersection seg1 seg2 = Inr r)"
    by (blast intro: seg_intersection_total)
  have g: "den f \<noteq> 0 \<longrightarrow>
        (\<forall>g. gcdT (num f) (den f) = Inr g \<longrightarrow> g \<noteq> 0)
        \<and> (\<forall>e. reduce f = Inl e \<longrightarrow> e = Overflow)
        \<and> (\<forall>e. reduce_inplace f = Inl e \<longrightarrow> e = Overflow)
        \<and> (\<bar>num f\<bar> \<le> INT_MAX \<and> \<bar>den f\<bar> \<le> INT_MAX \<longrightarrow>
             (\<exists>g. gcdT (num f) (den f) = Inr g)
             \<and> (\<exists>r. reduce f = Inr r) \<and> (\<exists>r. reduce_inplace f = Inr r))"
    using reduce_total [of f] reduce_inplace_total [of f]
    by (auto dest: gcdT_nonzero reduce_error reduce_inplace_error)
  from s ss c i e fr t g show ?thesis
    by (intro conjI)
qed

theorem predicates_total_witness:
  "wrap (den_det (\<lparr>x = 0, y = 0\<rparr>, \<lparr>x = 2, y = 2\<rparr>) (\<lparr>x = 0, y = 2\<rparr>, \<lparr>x = 2, y = 0\<rparr>)) \<noteq> 0
   \<and> wrap (x_num (\<lparr>x = 0, y = 0\<rparr>, \<lparr>x = 2, y = 2\<rparr>) (\<lparr>x = 0, y = 2\<rparr>, \<lparr>x = 2, y = 0\<rparr>)) \<noteq> INT_MIN
   \<and> wrap (y_num (\<lparr>x = 0, y = 0\<rparr>, \<lparr>x = 2, y = 2\<rparr>) (\<lparr>x = 0, y = 2\<rparr>, \<lparr>x = 2, y = 0\<rparr>)) \<noteq> INT_MIN
   \<and> wrap (den_det (\<lparr>x = 0, y = 0\<rparr>, \<lparr>x = 2, y = 2\<rparr>) (\<lparr>x = 0, y = 2\<rparr>, \<lparr>x = 2, y = 0\<rparr>)) \<noteq> INT_MIN
   \<and> den \<lparr>num = 6, den = - 4\<rparr> \<noteq> 0
   \<and> \<bar>num \<lparr>num = 6, den = - 4\<rparr>\<bar> \<le> INT_MAX \<and> \<bar>den \<lparr>num = 6, den = - 4\<rparr>\<bar> \<le> INT_MAX
   \<and> (\<exists>s. side (\<lparr>x = 0, y = 0\<rparr>, \<lparr>x = 2, y = 2\<rparr>) \<lparr>x = 3, y = 3\<rparr> = Inr s)
   \<and> (\<exists>b. same_side (\<lparr>x = 0, y = 0\<rparr>, \<lparr>x = 2, y = 2\<rparr>) \<lparr>x = 3, y = 3\<rparr> \<lparr>x = 0, y = 1\<rparr> = Inr b)
   \<and> (\<exists>b. seg_contains (\<lparr>x = 0, y = 0\<rparr>, \<lparr>x = 2, y = 2\<rparr>) \<lparr>x = 3, y = 3\<rparr> = Inr b)
   \<and> (\<exists>b. seg_intersects (\<lparr>x = 0, y = 0\<rparr>, \<lparr>x = 2, y = 2\<rparr>) (\<lparr>x = 0, y = 2\<rparr>, \<lparr>x = 2, y = 0\<rparr>) = Inr b)
   \<and> (\<exists>r. seg_intersection (\<lparr>x = 0, y = 0\<rparr>, \<lparr>x = 2, y = 2\<rparr>) (\<lparr>x = 0, y = 2\<rparr>, \<lparr>x = 2, y = 0\<rparr>) = Inr r)
   \<and> (\<exists>g. gcdT 6 (- 4) = Inr g \<and> g \<noteq> 0)
   \<and> (\<exists>r. reduce \<lparr>num = 6, den = - 4\<rparr> = Inr r)
   \<and> (\<exists>r. reduce_inplace \<lparr>num = 6, den = - 4\<rparr> = Inr r)"
proof -
  have h: "wrap (den_det (\<lparr>x = 0, y = 0\<rparr>, \<lparr>x = 2, y = 2\<rparr>) (\<lparr>x = 0, y = 2\<rparr>, \<lparr>x = 2, y = 0\<rparr>)) \<noteq> 0"
    "wrap (x_num (\<lparr>x = 0, y = 0\<rparr>, \<lparr>x = 2, y = 2\<rparr>) (\<lparr>x = 0, y = 2\<rparr>, \<lparr>x = 2, y = 0\<rparr>)) \<noteq> INT_MIN"
    "wrap (y_num (\<lparr>x = 0, y = 0\<rparr>, \<lparr>x = 2, y = 2\<rparr>) (\<lparr>x = 0, y = 2\<rparr>, \<lparr>x = 2, y = 0\<rparr>)) \<noteq> INT_MIN"
    "wrap (den_det (\<lparr>x = 0, y = 0\<rparr>, \<lparr>x = 2, y = 2\<rparr>) (\<lparr>x = 0, y = 2\<rparr>, \<lparr>x = 2, y = 0\<rparr>)) \<noteq> INT_MIN"
    by (simp_all add: den_det_def x_num_def y_num_def wrap_def INT_MIN_def)
  have k: "\<bar>6\<bar> \<le> INT_MAX" "\<bar>- 4\<bar> \<le> INT_MAX"
    by (simp_all add: INT_MAX_def)
  from h k predicates_total [of "(\<lparr>x = 0, y = 0\<rparr>, \<lparr>x = 2, y = 2\<rparr>)" "\<lparr>x = 3, y = 3\<rparr>" "\<lparr>x = 0, y = 1\<rparr>"
      "(\<lparr>x = 0, y = 0\<rparr>, \<lparr>x = 2, y = 2\<rparr>)" "(\<lparr>x = 0, y = 2\<rparr>, \<lparr>x = 2, y = 0\<rparr>)"
      "\<lparr>num = 6, den = - 4\<rparr>"]
  show ?thesis
    by auto
qed

lemma gcdT_INT_MIN_m1: "gcdT (- 2147483648) (- 1) = Inl Overflow"
  by (simp add: gcdT_rec rem_T_def INT_MIN_def bind_r_Inl)

theorem seg_intersection_traps:
  "seg_intersection (\<lparr>x = 1, y = - 1\<rparr>, \<lparr>x = 0, y = - 1\<rparr>) (\<lparr>x = 1073741824, y = 0\<rparr>, \<lparr>x = 0, y = 1\<rparr>)
     = Inl Overflow
   \<and> den_det (\<lparr>x = 1, y = - 1\<rparr>, \<lparr>x = 0, y = - 1\<rparr>) (\<lparr>x = 1073741824, y = 0\<rparr>, \<lparr>x = 0, y = 1\<rparr>) = - 1
   \<and> x_num (\<lparr>x = 1, y = - 1\<rparr>, \<lparr>x = 0, y = - 1\<rparr>) (\<lparr>x = 1073741824, y = 0\<rparr>, \<lparr>x = 0, y = 1\<rparr>)
     = - 2147483648
   \<and> y_num (\<lparr>x = 1, y = - 1\<rparr>, \<lparr>x = 0, y = - 1\<rparr>) (\<lparr>x = 1073741824, y = 0\<rparr>, \<lparr>x = 0, y = 1\<rparr>) = 1"
  by (simp add: seg_intersection_eq den_det_def x_num_def y_num_def wrap_def
      reduce_inplace_def gcdT_INT_MIN_m1 bind_r_Inl)

end
